theory Spec2Isabelle
  imports Complex_Main "HOL-Library.Word" "HOL-Library.AList"
begin

section \<open>Strings and numbers of the source language\<close>

text \<open>
  A string of the source is a sequence of 16-bit code units; a literal of the source is
  written \<open>js ''...''\<close>. A \<open>number\<close> of the source is a binary64 double, modelled
  by the rational it denotes (infinities and NaN are outside the model). Comparisons are
  those of the code. Where a statement depends on the result of an addition or a
  multiplication, the function is given with the rounding of every operation written out
  (the definitions named \<open>...Rounded\<close>, and \<open>orderSummaryTotals\<close>): their parameter
  \<open>rnd\<close> is \<open>toDouble\<close> for the source's arithmetic.
\<close>

type_synonym code_unit = "16 word"
type_synonym js_string = "code_unit list"
type_synonym number = rat

subsection \<open>Doubles\<close>

text \<open>
  The numbers of the source are binary64 doubles. \<open>toDouble x\<close> is the double nearest to
  the rational \<open>x\<close> (round to nearest, ties to even; for the normal range, without
  infinities): what a literal denotes and what each arithmetic operation returns. It is
  used to replay the pricing scenario with every rounding of the source made explicit.
\<close>

fun bitLength :: "nat \<Rightarrow> nat" where
  "bitLength n = (if n = 0 then 0 else Suc (bitLength (n div 2)))"

declare bitLength.simps [simp del]

definition pow2 :: "int \<Rightarrow> rat" where
  "pow2 e = (if e \<ge> 0 then 2 ^ nat e else 1 / 2 ^ nat (- e))"

definition toDouble :: "rat \<Rightarrow> rat" where
  "toDouble x =
     (if x = 0 then 0
      else
        (let a = \<bar>x\<bar>;
             e0 = (if a \<ge> 1 then int (bitLength (nat \<lfloor>a\<rfloor>)) - 53
                   else - int (bitLength (nat \<lfloor>1 / a\<rfloor>)) - 52);
             e = (if a / pow2 e0 \<ge> 2 ^ 53 then e0 + 1 else e0);
             m = a / pow2 e;
             f = \<lfloor>m\<rfloor>;
             r = m - of_int f;
             n = (if r < 1 / 2 then f else if r > 1 / 2 then f + 1
                  else if even f then f else f + 1)
         in sgn x * of_int n * pow2 e))"

subsection \<open>Strings\<close>

definition cu :: "char \<Rightarrow> code_unit" where
  "cu c = of_nat (of_char c)"

definition js :: "string \<Rightarrow> js_string" where
  "js s = map cu s"

text \<open>
  White space as the source language's \<open>\s\<close> and \<open>trim\<close> see it: the white space
  and line terminator code units.
\<close>

definition isWhiteSpace :: "code_unit \<Rightarrow> bool" where
  "isWhiteSpace c =
     (c = 0x0009 \<or> c = 0x000A \<or> c = 0x000B \<or> c = 0x000C \<or> c = 0x000D \<or> c = 0x0020 \<or>
      c = 0x00A0 \<or> c = 0x1680 \<or> (0x2000 \<le> c \<and> c \<le> 0x200A) \<or> c = 0x2028 \<or>
      c = 0x2029 \<or> c = 0x202F \<or> c = 0x205F \<or> c = 0x3000 \<or> c = 0xFEFF)"

definition isDigit :: "code_unit \<Rightarrow> bool" where
  "isDigit c = (0x0030 \<le> c \<and> c \<le> 0x0039)"

definition trim :: "js_string \<Rightarrow> js_string" where
  "trim s = rev (dropWhile isWhiteSpace (rev (dropWhile isWhiteSpace s)))"

text \<open>Truthiness of a string, and of an optional string (a missing one is falsy).\<close>

definition truthy :: "js_string \<Rightarrow> bool" where
  "truthy s = (s \<noteq> [])"

definition truthyOpt :: "js_string option \<Rightarrow> bool" where
  "truthyOpt s = (case s of None \<Rightarrow> False | Some t \<Rightarrow> truthy t)"

subsection \<open>Regular expressions\<close>

text \<open>
  The patterns of the source are all of the form \<open>/^...$/\<close> without flags: \<open>test\<close>
  succeeds when the whole string belongs to the pattern. A pattern is matched by taking
  its derivative along the string, one code unit at a time.
\<close>

datatype regex =
    Fail
  | Empty
  | Class "code_unit \<Rightarrow> bool"
  | Cat regex regex
  | Or regex regex
  | Many regex

fun acceptsEmpty :: "regex \<Rightarrow> bool" where
  "acceptsEmpty Fail = False"
| "acceptsEmpty Empty = True"
| "acceptsEmpty (Class P) = False"
| "acceptsEmpty (Cat r s) = (acceptsEmpty r \<and> acceptsEmpty s)"
| "acceptsEmpty (Or r s) = (acceptsEmpty r \<or> acceptsEmpty s)"
| "acceptsEmpty (Many r) = True"

fun after :: "code_unit \<Rightarrow> regex \<Rightarrow> regex" where
  "after c Fail = Fail"
| "after c Empty = Fail"
| "after c (Class P) = (if P c then Empty else Fail)"
| "after c (Cat r s) =
     (if acceptsEmpty r then Or (Cat (after c r) s) (after c s) else Cat (after c r) s)"
| "after c (Or r s) = Or (after c r) (after c s)"
| "after c (Many r) = Cat (after c r) (Many r)"

fun test :: "regex \<Rightarrow> js_string \<Rightarrow> bool" where
  "test r [] = acceptsEmpty r"
| "test r (c # cs) = test (after c r) cs"

text \<open>\<open>r+\<close>, \<open>r?\<close>, \<open>r{n}\<close> and \<open>r{n,}\<close>.\<close>

definition oneOrMore :: "regex \<Rightarrow> regex" where
  "oneOrMore r = Cat r (Many r)"

definition optional :: "regex \<Rightarrow> regex" where
  "optional r = Or r Empty"

fun exactly :: "nat \<Rightarrow> regex \<Rightarrow> regex" where
  "exactly 0 r = Empty"
| "exactly (Suc n) r = Cat r (exactly n r)"

definition orMore :: "nat \<Rightarrow> regex \<Rightarrow> regex" where
  "orMore n r = Cat (exactly n r) (Many r)"

definition chr :: "char \<Rightarrow> regex" where
  "chr c = Class (\<lambda>d. d = cu c)"

text \<open>What it means for a whole string to belong to a pattern; \<open>test\<close> is proved to
  decide it.\<close>

inductive matches :: "regex \<Rightarrow> js_string \<Rightarrow> bool" where
  matches_Empty: "matches Empty []"
| matches_Class: "P c \<Longrightarrow> matches (Class P) [c]"
| matches_Cat: "matches r u \<Longrightarrow> matches s v \<Longrightarrow> matches (Cat r s) (u @ v)"
| matches_OrL: "matches r u \<Longrightarrow> matches (Or r s) u"
| matches_OrR: "matches s u \<Longrightarrow> matches (Or r s) u"
| matches_Many_none: "matches (Many r) []"
| matches_Many_more: "matches r u \<Longrightarrow> matches (Many r) v \<Longrightarrow> matches (Many r) (u @ v)"

section \<open>Data model (types/cart)\<close>

typedecl js_value

record productVariant =
  vid :: js_string
  vname :: js_string
  options :: "(js_string \<times> js_string) list"

record product =
  pid :: js_string
  name :: js_string
  price :: number
  image :: "js_string option"
  description :: "js_string option"
  sku :: "js_string option"
  variant :: "productVariant option"
  metadata :: "(js_string \<times> js_value) list option"

record cartItem =
  product :: product
  quantity :: number
  itemKey :: js_string

record cartState =
  items :: "cartItem list"
  isOpen :: bool
  isLoading :: bool

datatype cartAction =
    ADD_ITEM product number
  | REMOVE_ITEM js_string
  | UPDATE_QUANTITY js_string number
  | CLEAR_CART
  | OPEN_CART
  | CLOSE_CART
  | TOGGLE_CART
  | SET_LOADING bool
  | HYDRATE "cartItem list"

record shippingAddress =
  firstName :: js_string
  lastName :: js_string
  email :: js_string
  phone :: "js_string option"
  address1 :: js_string
  address2 :: "js_string option"
  city :: js_string
  state_addr :: js_string
  postalCode :: js_string
  country :: js_string

record billingAddress = shippingAddress +
  sameAsShipping :: "bool option"

record orderData =
  oid :: js_string
  oitems :: "cartItem list"
  oshipping :: shippingAddress
  obilling :: billingAddress
  osubtotal :: number
  oshippingCost :: number
  otax :: number
  ototal :: number
  onotes :: "js_string option"
  createdAt :: js_string
  ometadata :: "(js_string \<times> js_value) list option"

record checkoutFormValues =
  shipping :: shippingAddress
  billing :: billingAddress
  formNotes :: "js_string option"

datatype httpMethod = GET | POST

record paymentRedirectConfig =
  url :: js_string
  method_redirect :: httpMethod
  params :: "(js_string \<times> js_string) list option"

record totals =
  subtotal :: number
  shippingCost :: number
  tax :: number
  total :: number

section \<open>lib/cart-utils\<close>

definition generateItemKey :: "product \<Rightarrow> js_string" where
  "generateItemKey p =
     (case variant p of
        Some v \<Rightarrow> pid p @ js ''-'' @ vid v
      | None \<Rightarrow> pid p)"

definition calculateSubtotal :: "cartItem list \<Rightarrow> number" where
  "calculateSubtotal xs = foldl (\<lambda>sum item. sum + price (product item) * quantity item) 0 xs"

definition calculateItemCount :: "cartItem list \<Rightarrow> number" where
  "calculateItemCount xs = foldl (\<lambda>count item. count + quantity item) 0 xs"

definition calculateShipping :: "number \<Rightarrow> number" where
  "calculateShipping sub = (if sub \<ge> 50 then 0 else 5.99)"

definition calculateTax :: "number \<Rightarrow> number" where
  "calculateTax sub = sub * 0.08"

definition calculateTotals :: "cartItem list \<Rightarrow> totals" where
  "calculateTotals xs =
     (let sub = calculateSubtotal xs;
          ship = calculateShipping sub;
          tx = calculateTax sub;
          tot = sub + ship + tx
      in \<lparr>subtotal = sub, shippingCost = ship, tax = tx, total = tot\<rparr>)"

text \<open>\<open>calculateSubtotal\<close>, \<open>calculateShipping\<close> and \<open>calculateTax\<close> with the rounding
  of every literal and of every arithmetic result written out (\<open>rnd\<close>).\<close>

definition calculateSubtotalRounded :: "(number \<Rightarrow> number) \<Rightarrow> cartItem list \<Rightarrow> number" where
  "calculateSubtotalRounded rnd xs =
     foldl (\<lambda>sum item. rnd (sum + rnd (price (product item) * quantity item))) 0 xs"

definition calculateShippingRounded :: "(number \<Rightarrow> number) \<Rightarrow> number \<Rightarrow> number" where
  "calculateShippingRounded rnd sub = (if sub \<ge> 50 then 0 else rnd 5.99)"

definition calculateTaxRounded :: "(number \<Rightarrow> number) \<Rightarrow> number \<Rightarrow> number" where
  "calculateTaxRounded rnd sub = rnd (sub * rnd 0.08)"

text \<open>\<open>calculateTotals\<close> once more, with the rounding of every literal and of every
  arithmetic result written out (\<open>rnd\<close>); with the identity for \<open>rnd\<close> it is
  \<open>calculateTotals\<close>, with \<open>toDouble\<close> it is the computation on doubles.\<close>

definition calculateTotalsRounded :: "(number \<Rightarrow> number) \<Rightarrow> cartItem list \<Rightarrow> totals" where
  "calculateTotalsRounded rnd xs =
     (let sub = foldl (\<lambda>sum item. rnd (sum + rnd (price (product item) * quantity item))) 0 xs;
          ship = (if sub \<ge> 50 then 0 else rnd 5.99);
          tx = rnd (sub * rnd 0.08);
          tot = rnd (rnd (sub + ship) + tx)
      in \<lparr>subtotal = sub, shippingCost = ship, tax = tx, total = tot\<rparr>)"

text \<open>\<open>/^[^\s@]+@[^\s@]+\.[^\s@]+$/\<close>\<close>

definition emailRegex :: regex where
  "emailRegex =
     Cat (oneOrMore (Class (\<lambda>c. \<not> (isWhiteSpace c \<or> c = cu CHR ''@''))))
    (Cat (chr CHR ''@'')
    (Cat (oneOrMore (Class (\<lambda>c. \<not> (isWhiteSpace c \<or> c = cu CHR ''@''))))
    (Cat (chr CHR ''.'')
         (oneOrMore (Class (\<lambda>c. \<not> (isWhiteSpace c \<or> c = cu CHR ''@'')))))))"

definition isValidEmail :: "js_string \<Rightarrow> bool" where
  "isValidEmail s = test emailRegex s"

text \<open>\<open>/^[\d\s\-+()]{7,}$/\<close>\<close>

definition phoneRegex :: regex where
  "phoneRegex =
     orMore 7 (Class (\<lambda>c. isDigit c \<or> isWhiteSpace c \<or> c = cu CHR ''-'' \<or> c = cu CHR ''+''
                           \<or> c = cu CHR ''('' \<or> c = cu CHR '')''))"

definition isValidPhone :: "js_string \<Rightarrow> bool" where
  "isValidPhone s = test phoneRegex s"

text \<open>\<open>/^\d{5}(-\d{4})?$/\<close> for the country \<open>US\<close>, length at least 3 elsewhere.\<close>

definition usPostalRegex :: regex where
  "usPostalRegex =
     Cat (exactly 5 (Class isDigit)) (optional (Cat (chr CHR ''-'') (exactly 4 (Class isDigit))))"

definition isValidPostalCode :: "js_string \<Rightarrow> js_string \<Rightarrow> bool" where
  "isValidPostalCode code ctry =
     (if ctry = js ''US'' then test usPostalRegex code else length code \<ge> 3)"

section \<open>context/CartContext: the reducer\<close>

definition initialState :: cartState where
  "initialState = \<lparr>items = [], isOpen = False, isLoading = True\<rparr>"

text \<open>\<open>findIndex\<close>: the index of the first element satisfying the predicate, or \<open>-1\<close>.\<close>

fun findIndexFrom :: "('a \<Rightarrow> bool) \<Rightarrow> 'a list \<Rightarrow> int \<Rightarrow> int" where
  "findIndexFrom P [] i = -1"
| "findIndexFrom P (x # xs) i = (if P x then i else findIndexFrom P xs (i + 1))"

definition findIndex :: "('a \<Rightarrow> bool) \<Rightarrow> 'a list \<Rightarrow> int" where
  "findIndex P xs = findIndexFrom P xs 0"

fun cartReducer :: "cartState \<Rightarrow> cartAction \<Rightarrow> cartState" where
  "cartReducer state (ADD_ITEM p q) =
     (let k = generateItemKey p;
          existingIndex = findIndex (\<lambda>item. itemKey item = k) (items state)
      in if existingIndex \<ge> 0
         then (let i = nat existingIndex;
                   updatedItems = items state;
                   updatedItems = updatedItems
                     [i := (updatedItems ! i)\<lparr>quantity := quantity (updatedItems ! i) + q\<rparr>]
               in state\<lparr>items := updatedItems\<rparr>)
         else state\<lparr>items := items state @ [\<lparr>product = p, quantity = q, itemKey = k\<rparr>]\<rparr>)"
| "cartReducer state (REMOVE_ITEM k) =
     state\<lparr>items := filter (\<lambda>item. itemKey item \<noteq> k) (items state)\<rparr>"
| "cartReducer state (UPDATE_QUANTITY k q) =
     (if q \<le> 0
      then state\<lparr>items := filter (\<lambda>item. itemKey item \<noteq> k) (items state)\<rparr>
      else state\<lparr>items := map (\<lambda>item. if itemKey item = k then item\<lparr>quantity := q\<rparr> else item)
                                 (items state)\<rparr>)"
| "cartReducer state CLEAR_CART = state\<lparr>items := []\<rparr>"
| "cartReducer state OPEN_CART = state\<lparr>isOpen := True\<rparr>"
| "cartReducer state CLOSE_CART = state\<lparr>isOpen := False\<rparr>"
| "cartReducer state TOGGLE_CART = state\<lparr>isOpen := \<not> isOpen state\<rparr>"
| "cartReducer state (SET_LOADING b) = state\<lparr>isLoading := b\<rparr>"
| "cartReducer state (HYDRATE payload) = state\<lparr>items := payload, isLoading := False\<rparr>"

text \<open>The convenience methods of the provider: each dispatches one action.
  \<open>addItem\<close> has the default parameter \<open>quantity = 1\<close>, used when the argument is missing.\<close>

definition addItem :: "product \<Rightarrow> number option \<Rightarrow> cartAction" where
  "addItem p q = ADD_ITEM p (case q of None \<Rightarrow> 1 | Some n \<Rightarrow> n)"

definition removeItem :: "js_string \<Rightarrow> cartAction" where
  "removeItem k = REMOVE_ITEM k"

definition updateQuantity :: "js_string \<Rightarrow> number \<Rightarrow> cartAction" where
  "updateQuantity k q = UPDATE_QUANTITY k q"

definition clearCart :: cartAction where
  "clearCart = CLEAR_CART"

text \<open>A run of the store: the actions dispatched one after the other.\<close>

definition dispatchAll :: "cartState \<Rightarrow> cartAction list \<Rightarrow> cartState" where
  "dispatchAll s as = foldl cartReducer s as"

text \<open>The reducer once more, with the rounding of its one arithmetic operation, the sum
  of two quantities, written out (\<open>rnd\<close>); the other cases do no arithmetic.\<close>

definition cartReducerRounded :: "(number \<Rightarrow> number) \<Rightarrow> cartState \<Rightarrow> cartAction \<Rightarrow> cartState" where
  "cartReducerRounded rnd state a =
     (case a of
        ADD_ITEM p q \<Rightarrow>
          (let k = generateItemKey p;
               existingIndex = findIndex (\<lambda>item. itemKey item = k) (items state)
           in if existingIndex \<ge> 0
              then (let i = nat existingIndex;
                        updatedItems = items state;
                        updatedItems = updatedItems
                          [i := (updatedItems ! i)
                             \<lparr>quantity := rnd (quantity (updatedItems ! i) + q)\<rparr>]
                    in state\<lparr>items := updatedItems\<rparr>)
              else state\<lparr>items := items state @ [\<lparr>product = p, quantity = q, itemKey = k\<rparr>]\<rparr>)
      | _ \<Rightarrow> cartReducer state a)"


section \<open>components/cart/OrderSummary: the totals\<close>

text \<open>\<open>a ?? b\<close>: \<open>b\<close> when \<open>a\<close> is missing.\<close>

definition nullish :: "'a option \<Rightarrow> 'a \<Rightarrow> 'a" where
  "nullish a b = (case a of None \<Rightarrow> b | Some v \<Rightarrow> v)"

record summaryTotals = totals +
  discount :: number

text \<open>The props \<open>shippingCost\<close>, \<open>tax\<close> and \<open>discount\<close> are optional; \<open>discount\<close>
  has the default 0. Every sum and difference is rounded (\<open>rnd\<close>), as in
  \<open>calculateTotalsRounded\<close>.\<close>

definition orderSummaryTotals ::
  "(number \<Rightarrow> number) \<Rightarrow> cartItem list \<Rightarrow> number option \<Rightarrow> number option \<Rightarrow> number option
     \<Rightarrow> summaryTotals" where
  "orderSummaryTotals rnd xs customShipping customTax discountProp =
     (let disc = (case discountProp of None \<Rightarrow> 0 | Some d \<Rightarrow> d);
          calculated = calculateTotalsRounded rnd xs
      in \<lparr>subtotal = subtotal calculated,
          shippingCost = nullish customShipping (shippingCost calculated),
          tax = nullish customTax (tax calculated),
          total = rnd (rnd (rnd (subtotal calculated
                                 + nullish customShipping (shippingCost calculated))
                            + nullish customTax (tax calculated))
                       - disc),
          discount = disc\<rparr>)"

section \<open>components/cart/CheckoutForm\<close>

text \<open>
  A thrown value is an \<open>Error\<close> object, known by its message, or any other value.
  A call of a collaborator returns normally or throws; the order-creation collaborator
  resolves to an order and a redirect, or rejects.
\<close>

datatype thrown = ErrorObject js_string | OtherValue

datatype call =
    CreateOrder checkoutFormValues "cartItem list" totals
  | OrderCreated js_string
  | ClearCart
  | RedirectToPayment paymentRedirectConfig
  | OnError js_string

record checkoutProps =
  onCreateOrder ::
    "checkoutFormValues \<Rightarrow> cartItem list \<Rightarrow> totals \<Rightarrow> thrown + (orderData \<times> paymentRedirectConfig)"
  onOrderCreated :: "(js_string \<Rightarrow> thrown option) option"
  onError :: "(js_string \<Rightarrow> thrown option) option"
  showBillingAddress :: bool
  showNotes :: bool

text \<open>The state the form works on: its own state, the cart of the context, and the
  calls it has made to its collaborators, in order.\<close>

record checkoutState =
  shippingState :: shippingAddress
  billingState :: billingAddress
  notesState :: js_string
  isSubmitting :: bool
  errors :: "(js_string \<times> js_string) list"
  cart :: cartState
  calls :: "call list"

definition initialAddress :: shippingAddress where
  "initialAddress =
     \<lparr>firstName = [], lastName = [], email = [], phone = Some [],
      address1 = [], address2 = Some [], city = [], state_addr = [],
      postalCode = [], country = js ''US''\<rparr>"

definition initialBilling :: billingAddress where
  "initialBilling =
     \<lparr>firstName = [], lastName = [], email = [], phone = Some [],
      address1 = [], address2 = Some [], city = [], state_addr = [],
      postalCode = [], country = js ''US'', sameAsShipping = Some True\<rparr>"

text \<open>\<open>newErrors[key] = message\<close> when the condition holds.\<close>

definition setIf ::
  "bool \<Rightarrow> string \<Rightarrow> string \<Rightarrow> (js_string \<times> js_string) list \<Rightarrow> (js_string \<times> js_string) list" where
  "setIf b key message e = (if b then AList.update (js key) (js message) e else e)"

text \<open>\<open>validateForm\<close>, first part: the object \<open>newErrors\<close> it builds.\<close>

definition newErrors :: "checkoutProps \<Rightarrow> checkoutState \<Rightarrow> (js_string \<times> js_string) list" where
  "newErrors props w =
     (let sh = shippingState w;
          bi = billingState w;
          e = [];
          e = setIf (\<not> truthy (trim (firstName sh))) ''shipping.firstName'' ''First name is required'' e;
          e = setIf (\<not> truthy (trim (lastName sh))) ''shipping.lastName'' ''Last name is required'' e;
          e = (if \<not> truthy (trim (email sh))
               then setIf True ''shipping.email'' ''Email is required'' e
               else setIf (\<not> isValidEmail (email sh)) ''shipping.email'' ''Please enter a valid email'' e);
          e = setIf (case phone sh of None \<Rightarrow> False | Some p \<Rightarrow> truthy p \<and> \<not> isValidPhone p)
                ''shipping.phone'' ''Please enter a valid phone number'' e;
          e = setIf (\<not> truthy (trim (address1 sh))) ''shipping.address1'' ''Address is required'' e;
          e = setIf (\<not> truthy (trim (city sh))) ''shipping.city'' ''City is required'' e;
          e = setIf (\<not> truthy (trim (state_addr sh))) ''shipping.state'' ''State is required'' e;
          e = (if \<not> truthy (trim (postalCode sh))
               then setIf True ''shipping.postalCode'' ''Postal code is required'' e
               else setIf (\<not> isValidPostalCode (postalCode sh) (country sh))
                      ''shipping.postalCode'' ''Please enter a valid postal code'' e);
          e = (if showBillingAddress props \<and> sameAsShipping bi \<noteq> Some True
               then
                 (let e = setIf (\<not> truthy (trim (firstName bi))) ''billing.firstName'' ''First name is required'' e;
                      e = setIf (\<not> truthy (trim (lastName bi))) ''billing.lastName'' ''Last name is required'' e;
                      e = (if \<not> truthy (trim (email bi))
                           then setIf True ''billing.email'' ''Email is required'' e
                           else setIf (\<not> isValidEmail (email bi)) ''billing.email'' ''Please enter a valid email'' e);
                      e = setIf (\<not> truthy (trim (address1 bi))) ''billing.address1'' ''Address is required'' e;
                      e = setIf (\<not> truthy (trim (city bi))) ''billing.city'' ''City is required'' e;
                      e = setIf (\<not> truthy (trim (state_addr bi))) ''billing.state'' ''State is required'' e
                  in if \<not> truthy (trim (postalCode bi))
                     then setIf True ''billing.postalCode'' ''Postal code is required'' e
                     else setIf (\<not> isValidPostalCode (postalCode bi) (country bi))
                            ''billing.postalCode'' ''Please enter a valid postal code'' e)
               else e)
      in e)"

text \<open>\<open>validateForm\<close>, second part: \<open>setErrors(newErrors)\<close>, and the result
  \<open>Object.keys(newErrors).length === 0\<close>.\<close>

definition validateForm :: "checkoutProps \<Rightarrow> checkoutState \<Rightarrow> checkoutState \<times> bool" where
  "validateForm props w =
     (let e = newErrors props w
      in (w\<lparr>errors := e\<rparr>, length e = 0))"

text \<open>\<open>redirectToPayment\<close>: a GET redirect parses the URL first, which throws on a
  malformed one (\<open>newURL\<close> is the platform's parser: what it throws, if anything); a POST
  redirect submits a form.\<close>

definition redirectToPayment ::
  "(js_string \<Rightarrow> thrown option) \<Rightarrow> paymentRedirectConfig \<Rightarrow> thrown option" where
  "redirectToPayment newURL config = (if method_redirect config = GET then newURL (url config) else None)"

text \<open>\<open>err instanceof Error ? err : new Error('Failed to create order')\<close>, then its message.\<close>

definition errorMessage :: "thrown \<Rightarrow> js_string" where
  "errorMessage err = (case err of ErrorObject m \<Rightarrow> m | OtherValue \<Rightarrow> js ''Failed to create order'')"

definition finalBilling :: "checkoutState \<Rightarrow> billingAddress" where
  "finalBilling w =
     (let sh = shippingState w
      in if sameAsShipping (billingState w) = Some True
         then \<lparr>firstName = firstName sh, lastName = lastName sh, email = email sh, phone = phone sh,
               address1 = address1 sh, address2 = address2 sh, city = city sh,
               state_addr = state_addr sh, postalCode = postalCode sh, country = country sh,
               sameAsShipping = Some True\<rparr>
         else billingState w)"

text \<open>The form values handed to the order-creation collaborator.\<close>

definition formData :: "checkoutProps \<Rightarrow> checkoutState \<Rightarrow> checkoutFormValues" where
  "formData props w =
     \<lparr>shipping = shippingState w, billing = finalBilling w,
      formNotes = (if showNotes props then Some (notesState w) else None)\<rparr>"

text \<open>The \<open>try\<close> block: \<open>Inl\<close> is a throw (with the state reached), \<open>Inr\<close> the normal end.\<close>

definition tryBlock ::
  "(js_string \<Rightarrow> thrown option) \<Rightarrow> checkoutProps \<Rightarrow> checkoutState \<Rightarrow> (thrown \<times> checkoutState) + checkoutState" where
  "tryBlock newURL props w =
     (let xs = items (cart w);
          tot = calculateTotals xs;
          fd = formData props w;
          w = w\<lparr>calls := calls w @ [CreateOrder fd xs tot]\<rparr>
      in case onCreateOrder props fd xs tot of
           Inl err \<Rightarrow> Inl (err, w)
         | Inr (order, paymentRedirect) \<Rightarrow>
             (let (thrownByCallback, w) =
                    (case onOrderCreated props of
                       None \<Rightarrow> (None, w)
                     | Some f \<Rightarrow> (f (oid order), w\<lparr>calls := calls w @ [OrderCreated (oid order)]\<rparr>))
              in case thrownByCallback of
                   Some err \<Rightarrow> Inl (err, w)
                 | None \<Rightarrow>
                     (let w = w\<lparr>cart := cartReducer (cart w) clearCart,
                                 calls := calls w @ [ClearCart]\<rparr>
                      in case redirectToPayment newURL paymentRedirect of
                           Some err \<Rightarrow> Inl (err, w)
                         | None \<Rightarrow> Inr (w\<lparr>calls := calls w @ [RedirectToPayment paymentRedirect]\<rparr>))))"

text \<open>The \<open>catch\<close> block. When \<open>onError\<close> itself throws, \<open>setIsSubmitting(false)\<close> is
  not reached.\<close>

definition catchBlock :: "checkoutProps \<Rightarrow> thrown \<Rightarrow> checkoutState \<Rightarrow> checkoutState" where
  "catchBlock props err w =
     (let message = errorMessage err;
          w = w\<lparr>errors := [(js ''form'', message)]\<rparr>
      in case onError props of
           None \<Rightarrow> w\<lparr>isSubmitting := False\<rparr>
         | Some f \<Rightarrow>
             (let w = w\<lparr>calls := calls w @ [OnError message]\<rparr>
              in case f message of
                   None \<Rightarrow> w\<lparr>isSubmitting := False\<rparr>
                 | Some _ \<Rightarrow> w))"

definition handleSubmit ::
  "(js_string \<Rightarrow> thrown option) \<Rightarrow> checkoutProps \<Rightarrow> checkoutState \<Rightarrow> checkoutState" where
  "handleSubmit newURL props w0 =
     (let (w, ok) = validateForm props w0
      in if \<not> ok then w
         else if length (items (cart w)) = 0
         then w\<lparr>errors := [(js ''form'', js ''Your cart is empty'')]\<rparr>
         else (let w = w\<lparr>isSubmitting := True\<rparr>;
                   w = w\<lparr>errors := []\<rparr>
               in case tryBlock newURL props w of
                    Inr w' \<Rightarrow> w'
                  | Inl (err, w') \<Rightarrow> catchBlock props err w'))"

text \<open>The submit button: \<open>disabled={isSubmitting || items.length === 0}\<close>.\<close>

definition submitDisabled :: "checkoutState \<Rightarrow> bool" where
  "submitDisabled w = (isSubmitting w \<or> length (items (cart w)) = 0)"

section \<open>Predicates of the statements\<close>


text \<open>The shape of an e-mail address in the words of the specification: no white space,
  at least one \<open>@\<close>, and at least one \<open>.\<close> after it.\<close>

definition emailShapeSpec :: "js_string \<Rightarrow> bool" where
  "emailShapeSpec s =
     (\<not> list_ex isWhiteSpace s
      \<and> cu CHR ''.'' \<in> set (dropWhile (\<lambda>c. c \<noteq> cu CHR ''@'') s))"

text \<open>A code unit that \<open>[^\s@]\<close> accepts.\<close>

definition notSpaceNorAt :: "code_unit \<Rightarrow> bool" where
  "notSpaceNorAt c = (\<not> (isWhiteSpace c \<or> c = cu CHR ''@''))"

text \<open>A \<open>HYDRATE\<close> whose payload has pairwise distinct item keys (any other action passes).\<close>

definition hydratesDistinct :: "cartAction \<Rightarrow> bool" where
  "hydratesDistinct a = (case a of HYDRATE payload \<Rightarrow> distinct (map itemKey payload) | _ \<Rightarrow> True)"

text \<open>An action that brings no quantity below 1: an \<open>ADD_ITEM\<close> of at least 1, an
  \<open>UPDATE_QUANTITY\<close> that removes (at most 0) or sets at least 1, a \<open>HYDRATE\<close> of lines
  of at least 1.\<close>

definition quantityAtLeastOne :: "cartAction \<Rightarrow> bool" where
  "quantityAtLeastOne a =
     (case a of
        ADD_ITEM p q \<Rightarrow> q \<ge> 1
      | UPDATE_QUANTITY k q \<Rightarrow> q \<le> 0 \<or> q \<ge> 1
      | HYDRATE payload \<Rightarrow> list_all (\<lambda>l. quantity l \<ge> 1) payload
      | _ \<Rightarrow> True)"

section \<open>The reducer: finding and merging a line\<close>

lemma findIndexFrom_absent:
  "\<forall>x\<in>set xs. \<not> P x \<Longrightarrow> findIndexFrom P xs i = -1"
  by (induction xs arbitrary: i) auto

lemma findIndexFrom_present:
  "\<exists>x\<in>set xs. P x \<Longrightarrow> findIndexFrom P xs i = i + int (length (takeWhile (\<lambda>x. \<not> P x) xs))"
proof (induction xs arbitrary: i)
  case Nil
  then show ?case by simp
next
  case (Cons a xs)
  show ?case
  proof (cases "P a")
    case True
    then show ?thesis by simp
  next
    case False
    with Cons.prems have "\<exists>x\<in>set xs. P x" by simp
    from Cons.IH [OF this, of "i + 1"] False show ?thesis by simp
  qed
qed

lemma findIndex_absent: "\<forall>x\<in>set xs. \<not> P x \<Longrightarrow> findIndex P xs = -1"
  by (simp add: findIndex_def findIndexFrom_absent)

lemma findIndex_present:
  "\<exists>x\<in>set xs. P x \<Longrightarrow> findIndex P xs = int (length (takeWhile (\<lambda>x. \<not> P x) xs))"
  by (simp add: findIndex_def findIndexFrom_present)

lemma first_match_in_range:
  "\<exists>x\<in>set xs. P x \<Longrightarrow> length (takeWhile (\<lambda>x. \<not> P x) xs) < length xs"
  by (induction xs) auto

lemma add_item_absent:
  "\<forall>l\<in>set (items s). itemKey l \<noteq> generateItemKey p \<Longrightarrow>
   cartReducer s (ADD_ITEM p q) =
     s\<lparr>items := items s @ [\<lparr>product = p, quantity = q, itemKey = generateItemKey p\<rparr>]\<rparr>"
  by (simp add: findIndex_absent Let_def)

lemma add_item_present:
  assumes "\<exists>l\<in>set (items s). itemKey l = generateItemKey p"
  shows "cartReducer s (ADD_ITEM p q) =
     s\<lparr>items := (items s)[length (takeWhile (\<lambda>l. itemKey l \<noteq> generateItemKey p) (items s)) :=
          ((items s) ! length (takeWhile (\<lambda>l. itemKey l \<noteq> generateItemKey p) (items s)))
             \<lparr>quantity := quantity ((items s) ! length (takeWhile (\<lambda>l. itemKey l \<noteq> generateItemKey p) (items s))) + q\<rparr>]\<rparr>"
  using assms by (simp add: findIndex_present Let_def)

lemma add_item_keys:
  "map itemKey (items (cartReducer s (ADD_ITEM p q))) =
     (if generateItemKey p \<in> set (map itemKey (items s)) then map itemKey (items s)
      else map itemKey (items s) @ [generateItemKey p])"
proof (cases "\<exists>l\<in>set (items s). itemKey l = generateItemKey p")
  case True
  then have lt: "length (takeWhile (\<lambda>l. itemKey l \<noteq> generateItemKey p) (items s)) < length (items s)"
    using first_match_in_range [of "items s" "\<lambda>l. itemKey l = generateItemKey p"] by simp
  from True have "generateItemKey p \<in> set (map itemKey (items s))" by force
  then show ?thesis
    using lt
    by (simp add: add_item_present [OF True] map_update list_update_same_conv
             del: set_map cartReducer.simps(1))
next
  case False
  then have "generateItemKey p \<notin> set (map itemKey (items s))" by force
  moreover from False have "\<forall>l\<in>set (items s). itemKey l \<noteq> generateItemKey p" by blast
  ultimately show ?thesis by (simp add: add_item_absent del: set_map cartReducer.simps(1))
qed

lemma add_item_last:
  assumes "\<forall>l\<in>set xs. itemKey l \<noteq> generateItemKey p"
      and "items s = xs @ [\<lparr>product = p0, quantity = n, itemKey = generateItemKey p\<rparr>]"
  shows "cartReducer s (ADD_ITEM p q) =
           s\<lparr>items := xs @ [\<lparr>product = p0, quantity = n + q, itemKey = generateItemKey p\<rparr>]\<rparr>"
proof -
  have tw: "takeWhile (\<lambda>l. itemKey l \<noteq> generateItemKey p) (items s) = xs"
    using assms by (simp add: takeWhile_append2)
  have ex: "\<exists>l\<in>set (items s). itemKey l = generateItemKey p"
    using assms(2) by simp
  show ?thesis
    by (simp add: add_item_present [OF ex] tw del: cartReducer.simps(1)) (simp add: assms(2))
qed


section \<open>Doubles: sign and exactness on integers\<close>

lemma pow2_powi: "pow2 e = 2 powi e"
  by (simp add: pow2_def power_int_def power_one_over inverse_eq_divide)

lemma pow2_pos: "pow2 e > 0"
  by (simp add: pow2_powi)

lemma bitLength_bounds:
  "n > 0 \<Longrightarrow> 2 ^ (bitLength n - 1) \<le> n \<and> n < 2 ^ bitLength n"
proof (induction n rule: bitLength.induct)
  case (1 n)
  show ?case
  proof (cases "n div 2 = 0")
    case True
    with "1.prems" have "n = Suc 0" by (simp add: div_eq_0_iff)
    then show ?thesis by (simp add: bitLength.simps [of "Suc 0"] bitLength.simps [of 0])
  next
    case False
    then have pos: "n div 2 > 0" by simp
    from "1.prems" have n0: "n \<noteq> 0" by simp
    from "1.IH" [OF n0 pos]
    have lo: "2 ^ (bitLength (n div 2) - 1) \<le> n div 2"
      and hi: "n div 2 < 2 ^ bitLength (n div 2)" by simp_all
    have k: "bitLength n = Suc (bitLength (n div 2))"
      using n0 by (simp add: bitLength.simps [of n])
    have kpos: "bitLength (n div 2) > 0"
      using pos by (simp add: bitLength.simps [of "n div 2"])
    then have "(2::nat) ^ bitLength (n div 2) = 2 * 2 ^ (bitLength (n div 2) - 1)"
      by (cases "bitLength (n div 2)") simp_all
    with lo have "2 ^ bitLength (n div 2) \<le> 2 * (n div 2)" by simp
    also have "\<dots> \<le> n" by simp
    finally have l: "2 ^ (bitLength n - 1) \<le> n" by (simp add: k)
    from hi have "2 * (n div 2) + 1 < 2 * 2 ^ bitLength (n div 2)" by simp
    moreover have "n \<le> 2 * (n div 2) + 1" by presburger
    ultimately have "n < 2 ^ bitLength n" by (simp add: k)
    with l show ?thesis by simp
  qed
qed

text \<open>The exponent \<open>toDouble\<close> chooses puts the scaled value at or above \<open>2^52\<close>.\<close>

lemma exponent_lower:
  fixes a :: rat
  assumes "a > 0"
  defines "e0 \<equiv> (if a \<ge> 1 then int (bitLength (nat \<lfloor>a\<rfloor>)) - 53
                  else - int (bitLength (nat \<lfloor>1 / a\<rfloor>)) - 52)"
  shows "2 ^ 52 \<le> a / pow2 e0"
proof (cases "a \<ge> 1")
  case True
  define N where "N = nat \<lfloor>a\<rfloor>"
  define k where "k = bitLength N"
  from True have fl: "\<lfloor>a\<rfloor> \<ge> 1" by simp
  then have Npos: "N > 0" by (simp add: N_def)
  from bitLength_bounds [OF Npos] have "2 ^ (k - 1) \<le> N" by (simp add: k_def)
  then have "(2::rat) ^ (k - 1) \<le> of_nat N"
    by (metis of_nat_le_iff of_nat_numeral of_nat_power)
  also have "of_nat N = (of_int \<lfloor>a\<rfloor> :: rat)" using fl by (simp add: N_def)
  also have "\<dots> \<le> a" by simp
  finally have lo: "(2::rat) ^ (k - 1) \<le> a" .
  have kpos: "k > 0" using Npos by (simp add: k_def bitLength.simps [of N])
  have e0: "e0 = int k - 53" using True by (simp add: e0_def k_def N_def)
  have "(2::rat) powi 52 = 2 powi (int (k - 1)) * 2 powi (53 - int k)"
    using kpos by (simp add: power_int_add [symmetric] of_nat_diff)
  also have "\<dots> \<le> a * 2 powi (53 - int k)"
    using lo by (simp add: mult_right_mono)
  also have "\<dots> = a / pow2 e0"
    by (simp add: e0 pow2_powi power_int_diff power_int_minus field_simps)
  finally show ?thesis by simp
next
  case False
  define J where "J = nat \<lfloor>1 / a\<rfloor>"
  define k where "k = bitLength J"
  from False assms(1) have "1 / a > 1" by simp
  then have fl: "\<lfloor>1 / a\<rfloor> \<ge> 1" by simp
  then have Jpos: "J > 0" by (simp add: J_def)
  from bitLength_bounds [OF Jpos] have "J < 2 ^ k" by (simp add: k_def)
  then have "int J < 2 ^ k" by (metis of_nat_less_iff of_nat_numeral of_nat_power)
  moreover have "int J = \<lfloor>1 / a\<rfloor>" using fl unfolding J_def by linarith
  ultimately have "\<lfloor>1 / a\<rfloor> < 2 ^ k" by simp
  then have "1 / a < 2 ^ k" by (simp add: floor_less_iff)
  then have "1 < a * 2 ^ k" using assms(1) by (simp add: field_simps)
  then have lo: "1 \<le> a * 2 powi (int k)" by simp
  have e0: "e0 = - int k - 52" using False by (simp add: e0_def k_def J_def)
  have "(2::rat) powi 52 = 1 * 2 powi 52" by simp
  also have "\<dots> \<le> (a * 2 powi (int k)) * 2 powi 52"
    using lo by (intro mult_right_mono) simp_all
  also have "\<dots> = a * 2 powi (int k + 52)"
    by (simp add: power_int_add)
  also have "\<dots> = a / pow2 e0"
  proof -
    have "(2::rat) powi (- int k - 52) = inverse (2 powi (int k + 52))"
      using power_int_minus [of "2::rat" "int k + 52"] by simp
    then show ?thesis by (simp add: e0 pow2_powi divide_inverse)
  qed
  finally show ?thesis by simp
qed

lemma pow2_Suc: "pow2 (e + 1) = 2 * pow2 e"
  by (simp add: pow2_powi power_int_add)

lemma toDouble_shape:
  fixes x :: rat
  assumes "x \<noteq> 0"
  defines "a \<equiv> \<bar>x\<bar>"
  defines "e0 \<equiv> (if a \<ge> 1 then int (bitLength (nat \<lfloor>a\<rfloor>)) - 53
                  else - int (bitLength (nat \<lfloor>1 / a\<rfloor>)) - 52)"
  defines "e \<equiv> (if a / pow2 e0 \<ge> 2 ^ 53 then e0 + 1 else e0)"
  defines "m \<equiv> a / pow2 e"
  defines "n \<equiv> (if m - of_int \<lfloor>m\<rfloor> < 1 / 2 then \<lfloor>m\<rfloor>
                 else if m - of_int \<lfloor>m\<rfloor> > 1 / 2 then \<lfloor>m\<rfloor> + 1
                 else if even \<lfloor>m\<rfloor> then \<lfloor>m\<rfloor> else \<lfloor>m\<rfloor> + 1)"
  shows "toDouble x = sgn x * of_int n * pow2 e" and "2 ^ 52 \<le> m"
proof -
  show "toDouble x = sgn x * of_int n * pow2 e"
    unfolding toDouble_def Let_def n_def m_def e_def e0_def a_def
    by (simp only: assms(1) if_False)
  have apos: "a > 0" using assms(1) by (simp add: a_def)
  have lo: "2 ^ 52 \<le> a / pow2 e0"
    unfolding e0_def by (rule exponent_lower [OF apos])
  show "2 ^ 52 \<le> m"
  proof (cases "a / pow2 e0 \<ge> 2 ^ 53")
    case True
    then have "m = (a / pow2 e0) / 2" by (simp add: m_def e_def pow2_Suc)
    with True show ?thesis by simp
  next
    case False
    then have "m = a / pow2 e0" by (simp add: m_def e_def)
    with lo show ?thesis by simp
  qed
qed

lemma toDouble_neg:
  assumes "x < 0"
  shows "toDouble x < 0"
proof -
  define a where "a = \<bar>x\<bar>"
  define e0 where "e0 = (if a \<ge> 1 then int (bitLength (nat \<lfloor>a\<rfloor>)) - 53
                  else - int (bitLength (nat \<lfloor>1 / a\<rfloor>)) - 52)"
  define e where "e = (if a / pow2 e0 \<ge> 2 ^ 53 then e0 + 1 else e0)"
  define m where "m = a / pow2 e"
  define n where "n = (if m - of_int \<lfloor>m\<rfloor> < 1 / 2 then \<lfloor>m\<rfloor>
                 else if m - of_int \<lfloor>m\<rfloor> > 1 / 2 then \<lfloor>m\<rfloor> + 1
                 else if even \<lfloor>m\<rfloor> then \<lfloor>m\<rfloor> else \<lfloor>m\<rfloor> + 1)"
  from assms have x0: "x \<noteq> 0" by simp
  have eq: "toDouble x = sgn x * of_int n * pow2 e"
    unfolding n_def m_def e_def e0_def a_def by (rule toDouble_shape(1) [OF x0])
  have "2 ^ 52 \<le> m"
    unfolding m_def e_def e0_def a_def by (rule toDouble_shape(2) [OF x0])
  then have "of_int 1 \<le> m" by simp
  then have "1 \<le> \<lfloor>m\<rfloor>" by (simp only: le_floor_iff)
  moreover have "\<lfloor>m\<rfloor> \<le> n" by (simp add: n_def)
  ultimately have "0 < n" by linarith
  then have "(0::rat) < of_int n" by simp
  then have "0 < of_int n * pow2 e" by (simp add: pow2_pos)
  moreover from assms have "sgn x = -1" by simp
  ultimately show ?thesis by (simp add: eq mult.assoc)
qed





section \<open>Claims on the cart store\<close>

lemma update_keeps_keys:
  "map itemKey (map (\<lambda>item. if itemKey item = k then item\<lparr>quantity := q\<rparr> else item) xs)
     = map itemKey xs"
  by (induction xs) simp_all

lemma reducer_keeps_distinct:
  assumes "distinct (map itemKey (items s))" and "hydratesDistinct a"
  shows "distinct (map itemKey (items (cartReducer s a)))"
proof (cases a)
  case (ADD_ITEM p q)
  then show ?thesis using assms(1) by (simp add: add_item_keys del: cartReducer.simps(1) set_map)
next
  case (REMOVE_ITEM k)
  then show ?thesis using assms(1) by (simp add: distinct_map_filter)
next
  case (UPDATE_QUANTITY k q)
  then show ?thesis using assms(1)
    by (simp add: distinct_map_filter update_keeps_keys del: map_map)
next
  case (HYDRATE payload)
  then show ?thesis using assms(2) by (simp add: hydratesDistinct_def)
qed (use assms(1) in simp_all)

lemma run_keeps_distinct:
  "distinct (map itemKey (items s)) \<Longrightarrow> list_all hydratesDistinct as \<Longrightarrow>
   distinct (map itemKey (items (foldl cartReducer s as)))"
proof (induction as arbitrary: s)
  case Nil
  then show ?case by simp
next
  case (Cons a as)
  from Cons.prems have "distinct (map itemKey (items (cartReducer s a)))"
    by (simp add: reducer_keeps_distinct)
  with Cons.prems Cons.IH show ?case by simp
qed

lemma distinct_key_one_line:
  "distinct (map itemKey xs) \<Longrightarrow> length (filter (\<lambda>l. itemKey l = k) xs) \<le> 1"
proof (induction xs)
  case Nil
  then show ?case by simp
next
  case (Cons a xs)
  show ?case
  proof (cases "itemKey a = k")
    case True
    from Cons.prems have "itemKey a \<notin> itemKey ` set xs" by simp
    with True have "\<forall>l\<in>set xs. itemKey l \<noteq> k" by blast
    then have "filter (\<lambda>l. itemKey l = k) xs = []" by (simp add: filter_empty_conv)
    with True show ?thesis by simp
  next
    case False
    with Cons show ?thesis by simp
  qed
qed

lemma update_one_keeps_all:
  assumes "list_all P xs" and "P y"
  shows "list_all P (xs[i := y])"
proof -
  have "set (xs[i := y]) \<subseteq> insert y (set xs)" by (rule set_update_subset_insert)
  with assms show ?thesis unfolding list_all_iff by blast
qed

lemma add_item_keeps_quantities:
  assumes "list_all (\<lambda>l. quantity l \<ge> 1) (items s)" and q: "q \<ge> 1"
  shows "list_all (\<lambda>l. quantity l \<ge> 1) (items (cartReducer s (ADD_ITEM p q)))"
proof (cases "\<exists>l\<in>set (items s). itemKey l = generateItemKey p")
  case True
  define i where "i = length (takeWhile (\<lambda>l. itemKey l \<noteq> generateItemKey p) (items s))"
  have lt: "i < length (items s)"
    unfolding i_def
    using first_match_in_range [of "items s" "\<lambda>l. itemKey l = generateItemKey p"] True by simp
  with assms(1) have "quantity (items s ! i) \<ge> 1"
    unfolding list_all_length by blast
  with q have new: "quantity ((items s ! i)\<lparr>quantity := quantity (items s ! i) + q\<rparr>) \<ge> 1" by simp
  have "list_all (\<lambda>l. quantity l \<ge> 1) ((items s)[i := (items s ! i)\<lparr>quantity := quantity (items s ! i) + q\<rparr>])"
    using assms(1) new by (rule update_one_keeps_all)
  moreover have "items (cartReducer s (ADD_ITEM p q)) =
      (items s)[i := (items s ! i)\<lparr>quantity := quantity (items s ! i) + q\<rparr>]"
    unfolding i_def by (simp add: add_item_present [OF True] del: cartReducer.simps(1))
  ultimately show ?thesis by (simp only:)
next
  case False
  then have "\<forall>l\<in>set (items s). itemKey l \<noteq> generateItemKey p" by blast
  then have "items (cartReducer s (ADD_ITEM p q)) =
      items s @ [\<lparr>product = p, quantity = q, itemKey = generateItemKey p\<rparr>]"
    by (simp add: add_item_absent del: cartReducer.simps(1))
  then show ?thesis using assms by simp
qed

lemma set_quantity_keeps_quantities:
  "q \<ge> 1 \<Longrightarrow> list_all (\<lambda>l. quantity l \<ge> 1) xs \<Longrightarrow>
   list_all (\<lambda>l. quantity l \<ge> 1)
     (map (\<lambda>item. if itemKey item = k then item\<lparr>quantity := q\<rparr> else item) xs)"
  by (induction xs) simp_all

lemma reducer_keeps_quantities:
  assumes "list_all (\<lambda>l. quantity l \<ge> 1) (items s)" and "quantityAtLeastOne a"
  shows "list_all (\<lambda>l. quantity l \<ge> 1) (items (cartReducer s a))"
proof (cases a)
  case (ADD_ITEM p q)
  with assms(2) have q: "q \<ge> 1" by (simp add: quantityAtLeastOne_def)
  show ?thesis unfolding ADD_ITEM using assms(1) q by (rule add_item_keeps_quantities)
next
  case (REMOVE_ITEM k)
  then show ?thesis using assms(1) by (simp add: list_all_iff)
next
  case (UPDATE_QUANTITY k q)
  show ?thesis
  proof (cases "q \<le> 0")
    case True
    then show ?thesis using assms(1) UPDATE_QUANTITY by (simp add: list_all_iff)
  next
    case False
    with assms(2) UPDATE_QUANTITY have "q \<ge> 1" by (simp add: quantityAtLeastOne_def)
    then have "list_all (\<lambda>l. quantity l \<ge> 1)
        (map (\<lambda>item. if itemKey item = k then item\<lparr>quantity := q\<rparr> else item) (items s))"
      using assms(1) by (rule set_quantity_keeps_quantities)
    then show ?thesis using UPDATE_QUANTITY False by simp
  qed
next
  case (HYDRATE payload)
  then show ?thesis using assms(2) by (simp add: quantityAtLeastOne_def)
qed (use assms(1) in simp_all)

lemma run_keeps_quantities:
  "list_all (\<lambda>l. quantity l \<ge> 1) (items s) \<Longrightarrow> list_all quantityAtLeastOne as \<Longrightarrow>
   list_all (\<lambda>l. quantity l \<ge> 1) (items (foldl cartReducer s as))"
proof (induction as arbitrary: s)
  case Nil
  then show ?case by simp
next
  case (Cons a as)
  from Cons.prems have "list_all (\<lambda>l. quantity l \<ge> 1) (items (cartReducer s a))"
    by (simp add: reducer_keeps_quantities)
  with Cons.prems Cons.IH show ?case by simp
qed

section \<open>The reducer with rounding: merging into one line\<close>

lemma cartReducerRounded_exact: "cartReducerRounded (\<lambda>x. x) s a = cartReducer s a"
  by (cases a) (simp_all add: cartReducerRounded_def)








text \<open>
  C1 (as amended). A missing quantity argument of \<open>addItem\<close> becomes 1; a supplied one,
  non-positive or not, is dispatched as it is, without defaulting.
  \<open>updateQuantity\<close> with a quantity of 0 or below removes the line
  with that key: no line with the key is left, none is kept with quantity zero. When every
  action of a run brings no quantity below 1 (\<open>quantityAtLeastOne\<close>), every line of the
  snapshot reached from the initial empty cart has quantity at least 1.
\<close>

theorem quantities_at_least_one:
  "addItem p None = ADD_ITEM p 1
   \<and> addItem p (Some n) = ADD_ITEM p n
   \<and> (q \<le> 0 \<longrightarrow> k \<notin> set (map itemKey (items (cartReducer s (updateQuantity k q)))))
   \<and> (list_all quantityAtLeastOne as \<longrightarrow>
        list_all (\<lambda>l. quantity l \<ge> 1) (items (dispatchAll initialState as)))"
proof (intro conjI impI)
  show "addItem p None = ADD_ITEM p 1" by (simp add: addItem_def)
next
  show "addItem p (Some n) = ADD_ITEM p n" by (simp add: addItem_def)
next
  assume "q \<le> 0"
  then show "k \<notin> set (map itemKey (items (cartReducer s (updateQuantity k q))))"
    by (auto simp: updateQuantity_def)
next
  assume "list_all quantityAtLeastOne as"
  moreover have "list_all (\<lambda>l. quantity l \<ge> 1) (items initialState)"
    by (simp add: initialState_def)
  ultimately show "list_all (\<lambda>l. quantity l \<ge> 1) (items (dispatchAll initialState as))"
    unfolding dispatchAll_def by (rule run_keeps_quantities [rotated])
qed

theorem quantities_at_least_one_witness:
  "list_all quantityAtLeastOne
     [addItem \<lparr>pid = js ''1'', name = js ''Product'', price = 29.99, image = None,
               description = None, sku = None, variant = None, metadata = None\<rparr> None,
      updateQuantity (js ''1'') 4,
      addItem \<lparr>pid = js ''1'', name = js ''Product'', price = 29.99, image = None,
               description = None, sku = None, variant = None, metadata = None\<rparr> (Some 2)]
   \<and> map quantity (items (dispatchAll initialState
     [addItem \<lparr>pid = js ''1'', name = js ''Product'', price = 29.99, image = None,
               description = None, sku = None, variant = None, metadata = None\<rparr> None,
      updateQuantity (js ''1'') 4,
      addItem \<lparr>pid = js ''1'', name = js ''Product'', price = 29.99, image = None,
               description = None, sku = None, variant = None, metadata = None\<rparr> (Some 2)])) = [6]
   \<and> (0::number) \<le> 0
   \<and> js ''1'' \<notin> set (map itemKey (items (cartReducer
         \<lparr>items = [\<lparr>product = \<lparr>pid = js ''1'', name = js ''Product'', price = 29.99, image = None,
               description = None, sku = None, variant = None, metadata = None\<rparr>,
               quantity = 2, itemKey = js ''1''\<rparr>], isOpen = False, isLoading = False\<rparr>
         (updateQuantity (js ''1'') 0))))"
proof -
  let ?p = "\<lparr>pid = js ''1'', name = js ''Product'', price = 29.99, image = None,
             description = None, sku = None, variant = None, metadata = None\<rparr>"
  let ?as = "[addItem ?p None, updateQuantity (js ''1'') 4, addItem ?p (Some 2)]"
  let ?s = "\<lparr>items = [\<lparr>product = ?p, quantity = 2, itemKey = js ''1''\<rparr>],
             isOpen = False, isLoading = False\<rparr>"
  have h: "list_all quantityAtLeastOne ?as"
    by (simp add: quantityAtLeastOne_def addItem_def updateQuantity_def)
  have run: "map quantity (items (dispatchAll initialState ?as)) = [6]"
    by (simp add: dispatchAll_def initialState_def addItem_def updateQuantity_def
          generateItemKey_def findIndex_def Let_def)
  from quantities_at_least_one [of ?p 0 0 "js ''1''" ?s ?as] h run
  show ?thesis by simp
qed

theorem add_item_zero_counterexample:
  "addItem \<lparr>pid = js ''1'', name = js ''Product'', price = 29.99, image = None,
            description = None, sku = None, variant = None, metadata = None\<rparr> (Some 0)
     \<noteq> ADD_ITEM \<lparr>pid = js ''1'', name = js ''Product'', price = 29.99, image = None,
            description = None, sku = None, variant = None, metadata = None\<rparr> 1
   \<and> map quantity (items (cartReducer initialState
        (addItem \<lparr>pid = js ''1'', name = js ''Product'', price = 29.99, image = None,
            description = None, sku = None, variant = None, metadata = None\<rparr> (Some 0)))) = [0]"
  by (simp add: addItem_def initialState_def generateItemKey_def findIndex_def Let_def)




text \<open>
  C3 (as amended). Every cart command other than \<open>HYDRATE\<close> maps a snapshot whose lines
  have pairwise distinct item keys to such a snapshot, and so does a \<open>HYDRATE\<close> whose
  payload has pairwise distinct item keys. Hence every snapshot reached from the initial
  empty cart by commands whose \<open>HYDRATE\<close> payloads have distinct keys has no duplicate
  item key, and there an item key identifies at most one line.
\<close>

theorem distinct_item_keys:
  "(distinct (map itemKey (items s)) \<and> hydratesDistinct a \<longrightarrow>
      distinct (map itemKey (items (cartReducer s a))))
   \<and> (list_all hydratesDistinct as \<longrightarrow>
        distinct (map itemKey (items (dispatchAll initialState as)))
        \<and> length (filter (\<lambda>l. itemKey l = k) (items (dispatchAll initialState as))) \<le> 1)"
proof (intro conjI impI)
  assume "distinct (map itemKey (items s)) \<and> hydratesDistinct a"
  then show "distinct (map itemKey (items (cartReducer s a)))"
    by (simp add: reducer_keeps_distinct)
next
  assume as: "list_all hydratesDistinct as"
  have "distinct (map itemKey (items initialState))" by (simp add: initialState_def)
  then show d: "distinct (map itemKey (items (dispatchAll initialState as)))"
    unfolding dispatchAll_def using as by (rule run_keeps_distinct)
  then show "length (filter (\<lambda>l. itemKey l = k) (items (dispatchAll initialState as))) \<le> 1"
    by (rule distinct_key_one_line)
qed

theorem distinct_item_keys_witness:
  "distinct (map itemKey (items initialState))
   \<and> hydratesDistinct (HYDRATE [\<lparr>product = \<lparr>pid = js ''1'', name = js ''Product'', price = 29.99,
        image = None, description = None, sku = None, variant = None, metadata = None\<rparr>,
        quantity = 1, itemKey = js ''1''\<rparr>])
   \<and> list_all hydratesDistinct
        [HYDRATE [\<lparr>product = \<lparr>pid = js ''1'', name = js ''Product'', price = 29.99,
           image = None, description = None, sku = None, variant = None, metadata = None\<rparr>,
           quantity = 1, itemKey = js ''1''\<rparr>],
         addItem \<lparr>pid = js ''1'', name = js ''Product'', price = 29.99,
           image = None, description = None, sku = None, variant = None, metadata = None\<rparr> None,
         addItem \<lparr>pid = js ''2'', name = js ''Other'', price = 5,
           image = None, description = None, sku = None, variant = None, metadata = None\<rparr> None]
   \<and> map itemKey (items (dispatchAll initialState
        [HYDRATE [\<lparr>product = \<lparr>pid = js ''1'', name = js ''Product'', price = 29.99,
           image = None, description = None, sku = None, variant = None, metadata = None\<rparr>,
           quantity = 1, itemKey = js ''1''\<rparr>],
         addItem \<lparr>pid = js ''1'', name = js ''Product'', price = 29.99,
           image = None, description = None, sku = None, variant = None, metadata = None\<rparr> None,
         addItem \<lparr>pid = js ''2'', name = js ''Other'', price = 5,
           image = None, description = None, sku = None, variant = None, metadata = None\<rparr> None]))
      = [js ''1'', js ''2'']"
proof -
  let ?p = "\<lparr>pid = js ''1'', name = js ''Product'', price = 29.99,
           image = None, description = None, sku = None, variant = None, metadata = None\<rparr>"
  let ?o = "\<lparr>pid = js ''2'', name = js ''Other'', price = 5,
           image = None, description = None, sku = None, variant = None, metadata = None\<rparr>"
  let ?h = "HYDRATE [\<lparr>product = ?p, quantity = 1, itemKey = js ''1''\<rparr>]"
  let ?as = "[?h, addItem ?p None, addItem ?o None]"
  have h1: "distinct (map itemKey (items initialState)) \<and> hydratesDistinct ?h"
    by (simp add: initialState_def hydratesDistinct_def)
  have h2: "list_all hydratesDistinct ?as"
    by (simp add: hydratesDistinct_def addItem_def)
  have run: "map itemKey (items (dispatchAll initialState ?as)) = [js ''1'', js ''2'']"
    by (simp add: dispatchAll_def initialState_def addItem_def generateItemKey_def
          findIndex_def Let_def js_def cu_def)
  from distinct_item_keys [of initialState ?h ?as "js ''1''"] h1 h2 run
  show ?thesis by simp
qed

theorem hydrate_duplicate_keys_counterexample:
  "distinct (map itemKey (items initialState))
   \<and> \<not> distinct (map itemKey (items (cartReducer initialState
        (HYDRATE [\<lparr>product = \<lparr>pid = js ''1'', name = js ''Product'', price = 29.99,
            image = None, description = None, sku = None, variant = None, metadata = None\<rparr>,
            quantity = 1, itemKey = js ''1''\<rparr>,
          \<lparr>product = \<lparr>pid = js ''1'', name = js ''Product'', price = 29.99,
            image = None, description = None, sku = None, variant = None, metadata = None\<rparr>,
            quantity = 2, itemKey = js ''1''\<rparr>]))))"
  by (simp add: initialState_def)

text \<open>
  C10. The product with id \<open>a-b\<close> and no variant and the product with id \<open>a\<close> and the
  variant \<open>b\<close> are distinct and have the same item key, so adding the second after the
  first merges it into the first product's line: one line, the quantities summed, the
  stored product still the first.
\<close>

theorem item_key_collision_merges_lines:
  "pid \<lparr>pid = js ''a-b'', name = js ''First'', price = 10, image = None,
         description = None, sku = None, variant = None, metadata = None\<rparr>
     \<noteq> pid \<lparr>pid = js ''a'', name = js ''Second'', price = 20, image = None,
         description = None, sku = None,
         variant = Some \<lparr>vid = js ''b'', vname = js ''B'', options = []\<rparr>, metadata = None\<rparr>
   \<and> generateItemKey \<lparr>pid = js ''a-b'', name = js ''First'', price = 10, image = None,
         description = None, sku = None, variant = None, metadata = None\<rparr>
     = generateItemKey \<lparr>pid = js ''a'', name = js ''Second'', price = 20, image = None,
         description = None, sku = None,
         variant = Some \<lparr>vid = js ''b'', vname = js ''B'', options = []\<rparr>, metadata = None\<rparr>
   \<and> items (dispatchAll initialState
       [addItem \<lparr>pid = js ''a-b'', name = js ''First'', price = 10, image = None,
         description = None, sku = None, variant = None, metadata = None\<rparr> (Some 2),
        addItem \<lparr>pid = js ''a'', name = js ''Second'', price = 20, image = None,
         description = None, sku = None,
         variant = Some \<lparr>vid = js ''b'', vname = js ''B'', options = []\<rparr>, metadata = None\<rparr> (Some 3)])
     = [\<lparr>product = \<lparr>pid = js ''a-b'', name = js ''First'', price = 10, image = None,
         description = None, sku = None, variant = None, metadata = None\<rparr>,
        quantity = 5, itemKey = js ''a-b''\<rparr>]"
  by (simp add: dispatchAll_def initialState_def addItem_def generateItemKey_def
        findIndex_def Let_def js_def cu_def)

section \<open>Patterns: \<open>test\<close> decides membership\<close>

inductive_simps matches_Fail_iff: "matches Fail w"
inductive_simps matches_Empty_iff: "matches Empty w"
inductive_simps matches_Class_iff: "matches (Class P) w"
inductive_simps matches_Cat_iff: "matches (Cat r s) w"
inductive_simps matches_Or_iff: "matches (Or r s) w"

lemma matches_nil_acceptsEmpty: "matches r [] \<Longrightarrow> acceptsEmpty r"
proof (induction r "[] :: js_string" rule: matches.induct)
qed simp_all

lemma acceptsEmpty_matches_nil: "acceptsEmpty r \<Longrightarrow> matches r []"
proof (induction r)
  case (Cat r s)
  then have "matches r []" "matches s []" by simp_all
  then have "matches (Cat r s) ([] @ [])" by (rule matches_Cat)
  then show ?case by simp
next
  case (Or r s)
  then show ?case by (auto intro: matches_OrL matches_OrR)
qed (auto intro: matches.intros)

lemma acceptsEmpty_iff: "acceptsEmpty r \<longleftrightarrow> matches r []"
  using matches_nil_acceptsEmpty acceptsEmpty_matches_nil by blast

text \<open>A string of \<open>Many r\<close> that starts with \<open>c\<close> starts with a non-empty string of \<open>r\<close>.\<close>

lemma matches_Many_Cons:
  "matches q x \<Longrightarrow> q = Many r \<Longrightarrow> x = c # w \<Longrightarrow>
   \<exists>u v. w = u @ v \<and> matches r (c # u) \<and> matches (Many r) v"
proof (induction q x rule: matches.induct)
  case (matches_Many_more r' u v)
  show ?case
  proof (cases u)
    case Nil
    with matches_Many_more show ?thesis by simp
  next
    case (Cons a u')
    with matches_Many_more.prems have "a = c" "w = u' @ v" by simp_all
    moreover from matches_Many_more.hyps(1) matches_Many_more.prems(1) Cons \<open>a = c\<close>
    have "matches r (c # u')" by simp
    moreover from matches_Many_more.hyps(2) matches_Many_more.prems(1)
    have "matches (Many r) v" by simp
    ultimately show ?thesis by blast
  qed
qed simp_all

lemma matches_after: "matches (after c r) w \<longleftrightarrow> matches r (c # w)"
proof (induction r arbitrary: w)
  case Fail
  then show ?case by (simp add: matches_Fail_iff)
next
  case Empty
  then show ?case by (simp add: matches_Fail_iff matches_Empty_iff)
next
  case (Class P)
  then show ?case by (simp add: matches_Fail_iff matches_Empty_iff matches_Class_iff)
next
  case (Cat r s)
  have "matches (Cat r s) (c # w) \<longleftrightarrow>
        (\<exists>u v. w = u @ v \<and> matches r (c # u) \<and> matches s v) \<or> (matches r [] \<and> matches s (c # w))"
    unfolding matches_Cat_iff by (auto simp: Cons_eq_append_conv)
  then show ?case
    by (simp add: matches_Cat_iff matches_Or_iff Cat.IH acceptsEmpty_iff)
next
  case (Or r s)
  then show ?case by (simp add: matches_Or_iff)
next
  case (Many r)
  have "matches (Many r) (c # w) \<longleftrightarrow> (\<exists>u v. w = u @ v \<and> matches r (c # u) \<and> matches (Many r) v)"
  proof
    assume "matches (Many r) (c # w)"
    then show "\<exists>u v. w = u @ v \<and> matches r (c # u) \<and> matches (Many r) v"
      by (rule matches_Many_Cons) simp_all
  next
    assume "\<exists>u v. w = u @ v \<and> matches r (c # u) \<and> matches (Many r) v"
    then obtain u v where "w = u @ v" "matches r (c # u)" "matches (Many r) v" by blast
    then have "matches (Many r) ((c # u) @ v)" by (intro matches_Many_more)
    with \<open>w = u @ v\<close> show "matches (Many r) (c # w)" by simp
  qed
  then show ?case by (simp add: matches_Cat_iff Many.IH)
qed

lemma test_iff_matches: "test r w \<longleftrightarrow> matches r w"
  by (induction w arbitrary: r) (simp_all add: acceptsEmpty_iff matches_after)

section \<open>The e-mail pattern\<close>

lemma matches_Many_Class_all:
  "matches q x \<Longrightarrow> q = Many (Class P) \<Longrightarrow> list_all P x"
proof (induction q x rule: matches.induct)
  case (matches_Many_more r u v)
  then have "matches (Class P) u" "list_all P v" by simp_all
  then show ?case by (auto simp: matches_Class_iff)
qed simp_all

lemma all_matches_Many_Class: "list_all P w \<Longrightarrow> matches (Many (Class P)) w"
proof (induction w)
  case Nil
  show ?case by (rule matches_Many_none)
next
  case (Cons c w)
  then have "matches (Class P) [c]" "matches (Many (Class P)) w"
    by (simp_all add: matches_Class)
  then have "matches (Many (Class P)) ([c] @ w)" by (rule matches_Many_more)
  then show ?case by simp
qed

lemma matches_Many_Class_iff: "matches (Many (Class P)) w \<longleftrightarrow> list_all P w"
  using matches_Many_Class_all [of "Many (Class P)" w P] all_matches_Many_Class [of P w] by blast

lemma matches_oneOrMore_Class_iff:
  "matches (oneOrMore (Class P)) w \<longleftrightarrow> w \<noteq> [] \<and> list_all P w"
proof (cases w)
  case Nil
  then show ?thesis
    unfolding oneOrMore_def matches_Cat_iff matches_Class_iff by simp
next
  case (Cons c cs)
  have "matches (Cat (Class P) (Many (Class P))) (c # cs) \<longleftrightarrow> P c \<and> list_all P cs"
  proof
    assume "matches (Cat (Class P) (Many (Class P))) (c # cs)"
    then obtain u v where "c # cs = u @ v" "matches (Class P) u" "matches (Many (Class P)) v"
      unfolding matches_Cat_iff by blast
    then show "P c \<and> list_all P cs"
      by (auto simp: matches_Class_iff matches_Many_Class_iff)
  next
    assume "P c \<and> list_all P cs"
    then have "matches (Class P) [c]" "matches (Many (Class P)) cs"
      by (simp_all add: matches_Class matches_Many_Class_iff)
    then have "matches (Cat (Class P) (Many (Class P))) ([c] @ cs)" by (rule matches_Cat)
    then show "matches (Cat (Class P) (Many (Class P))) (c # cs)" by simp
  qed
  with Cons show ?thesis by (simp add: oneOrMore_def)
qed

lemma matches_chr_iff: "matches (chr c) w \<longleftrightarrow> w = [cu c]"
  unfolding chr_def matches_Class_iff by auto

lemma isValidEmail_iff:
  "isValidEmail s \<longleftrightarrow>
     (\<exists>l d t. s = l @ cu CHR ''@'' # d @ cu CHR ''.'' # t
        \<and> l \<noteq> [] \<and> d \<noteq> [] \<and> t \<noteq> []
        \<and> list_all notSpaceNorAt l \<and> list_all notSpaceNorAt d \<and> list_all notSpaceNorAt t)"
proof -
  have cls: "(\<lambda>c. \<not> (isWhiteSpace c \<or> c = cu CHR ''@'')) = notSpaceNorAt"
    by (simp add: notSpaceNorAt_def fun_eq_iff)
  let ?part = "\<lambda>w. w \<noteq> [] \<and> list_all notSpaceNorAt w"
  have flat: "isValidEmail s \<longleftrightarrow>
      (\<exists>l v. s = l @ v \<and> ?part l \<and>
        (\<exists>a w. v = a @ w \<and> a = [cu CHR ''@''] \<and>
          (\<exists>d x. w = d @ x \<and> ?part d \<and>
            (\<exists>b t. x = b @ t \<and> b = [cu CHR ''.''] \<and> ?part t))))"
    unfolding isValidEmail_def test_iff_matches emailRegex_def cls
      matches_Cat_iff matches_oneOrMore_Class_iff matches_chr_iff
    by (rule refl)
  show ?thesis
  proof
    assume "isValidEmail s"
    then obtain l v a w d x b t where
      "s = l @ v" "?part l" "v = a @ w" "a = [cu CHR ''@'']" "w = d @ x" "?part d"
      "x = b @ t" "b = [cu CHR ''.'']" "?part t"
      unfolding flat by blast
    then have "s = l @ cu CHR ''@'' # d @ cu CHR ''.'' # t \<and> ?part l \<and> ?part d \<and> ?part t"
      by simp
    then show "\<exists>l d t. s = l @ cu CHR ''@'' # d @ cu CHR ''.'' # t
        \<and> l \<noteq> [] \<and> d \<noteq> [] \<and> t \<noteq> []
        \<and> list_all notSpaceNorAt l \<and> list_all notSpaceNorAt d \<and> list_all notSpaceNorAt t"
      by blast
  next
    assume "\<exists>l d t. s = l @ cu CHR ''@'' # d @ cu CHR ''.'' # t
        \<and> l \<noteq> [] \<and> d \<noteq> [] \<and> t \<noteq> []
        \<and> list_all notSpaceNorAt l \<and> list_all notSpaceNorAt d \<and> list_all notSpaceNorAt t"
    then obtain l d t where s: "s = l @ cu CHR ''@'' # d @ cu CHR ''.'' # t"
      and parts: "?part l" "?part d" "?part t" by blast
    have "cu CHR ''.'' # t = [cu CHR ''.''] @ t \<and> [cu CHR ''.''] = [cu CHR ''.''] \<and> ?part t"
      using parts(3) by simp
    then have x: "\<exists>b t'. cu CHR ''.'' # t = b @ t' \<and> b = [cu CHR ''.''] \<and> ?part t'"
      by blast
    have "d @ cu CHR ''.'' # t = d @ (cu CHR ''.'' # t) \<and> ?part d" using parts(2) by simp
    with x have w: "\<exists>d' x. d @ cu CHR ''.'' # t = d' @ x \<and> ?part d' \<and>
        (\<exists>b t'. x = b @ t' \<and> b = [cu CHR ''.''] \<and> ?part t')"
      by blast
    have "cu CHR ''@'' # d @ cu CHR ''.'' # t = [cu CHR ''@''] @ (d @ cu CHR ''.'' # t)" by simp
    with w have v: "\<exists>a w. cu CHR ''@'' # d @ cu CHR ''.'' # t = a @ w \<and> a = [cu CHR ''@''] \<and>
        (\<exists>d' x. w = d' @ x \<and> ?part d' \<and>
          (\<exists>b t'. x = b @ t' \<and> b = [cu CHR ''.''] \<and> ?part t'))"
      by blast
    show "isValidEmail s"
      unfolding flat using s parts(1) v by blast
  qed
qed

lemma at_dot_not_space: "\<not> isWhiteSpace (cu CHR ''@'')" "\<not> isWhiteSpace (cu CHR ''.'')"
  "cu CHR ''.'' \<noteq> cu CHR ''@''"
  by (simp_all add: isWhiteSpace_def cu_def)

lemma dropWhile_to_at:
  "list_all notSpaceNorAt l \<Longrightarrow>
   dropWhile (\<lambda>c. c \<noteq> cu CHR ''@'') (l @ cu CHR ''@'' # r) = cu CHR ''@'' # r"
  by (induction l) (simp_all add: notSpaceNorAt_def)

lemma no_space_parts: "list_all notSpaceNorAt l \<Longrightarrow> \<not> list_ex isWhiteSpace l"
  by (induction l) (simp_all add: notSpaceNorAt_def)

lemma no_at_parts: "list_all notSpaceNorAt l \<Longrightarrow> filter (\<lambda>c. c = cu CHR ''@'') l = []"
  by (induction l) (simp_all add: notSpaceNorAt_def)

lemma isValidEmail_shape:
  assumes "isValidEmail s"
  shows "emailShapeSpec s" and "length (filter (\<lambda>c. c = cu CHR ''@'') s) = 1"
proof -
  from assms obtain l d t where s: "s = l @ cu CHR ''@'' # d @ cu CHR ''.'' # t"
    and parts: "list_all notSpaceNorAt l" "list_all notSpaceNorAt d" "list_all notSpaceNorAt t"
    unfolding isValidEmail_iff by blast
  have "\<not> list_ex isWhiteSpace s"
    using parts [THEN no_space_parts] by (simp add: s at_dot_not_space)
  moreover have "cu CHR ''.'' \<in> set (dropWhile (\<lambda>c. c \<noteq> cu CHR ''@'') s)"
    unfolding s by (simp add: dropWhile_to_at [OF parts(1)])
  ultimately show "emailShapeSpec s" by (simp add: emailShapeSpec_def)
  show "length (filter (\<lambda>c. c = cu CHR ''@'') s) = 1"
    unfolding s using parts [THEN no_at_parts] by (simp add: at_dot_not_space)
qed

lemma isValidEmail_a_b_com: "isValidEmail (js ''a@b.com'')"
  by (simp add: isValidEmail_def emailRegex_def oneOrMore_def chr_def js_def cu_def isWhiteSpace_def)

lemma isValidEmail_not_an_email: "\<not> isValidEmail (js ''not-an-email'')"
  by (simp add: isValidEmail_def emailRegex_def oneOrMore_def chr_def js_def cu_def isWhiteSpace_def)

text \<open>
  C9 (as amended). \<open>isValidEmail s\<close> is true exactly when \<open>s\<close> is \<open>local@domain.tld\<close>
  with \<open>local\<close>, \<open>domain\<close> and \<open>tld\<close> non-empty and free of white space and of \<open>@\<close>
  (\<open>domain\<close> and \<open>tld\<close> may contain further dots). Every such string has no white space,
  exactly one \<open>@\<close> and at least one \<open>.\<close> after it. \<open>isValidEmail("a@b.com")\<close> is true
  and \<open>isValidEmail("not-an-email")\<close> is false.
\<close>

theorem isValidEmail_shape_exactly:
  "(isValidEmail s \<longleftrightarrow>
     (\<exists>l d t. s = l @ cu CHR ''@'' # d @ cu CHR ''.'' # t
        \<and> l \<noteq> [] \<and> d \<noteq> [] \<and> t \<noteq> []
        \<and> list_all notSpaceNorAt l \<and> list_all notSpaceNorAt d \<and> list_all notSpaceNorAt t))
   \<and> (isValidEmail s \<longrightarrow>
        emailShapeSpec s \<and> length (filter (\<lambda>c. c = cu CHR ''@'') s) = 1)
   \<and> isValidEmail (js ''a@b.com'')
   \<and> \<not> isValidEmail (js ''not-an-email'')"
  using isValidEmail_iff [of s] isValidEmail_shape [of s]
    isValidEmail_a_b_com isValidEmail_not_an_email
  by blast

theorem isValidEmail_shape_exactly_witness:
  "isValidEmail (js ''a@b.com'')
   \<and> emailShapeSpec (js ''a@b.com'')
   \<and> length (filter (\<lambda>c. c = cu CHR ''@'') (js ''a@b.com'')) = 1
   \<and> (\<exists>l d t. js ''a@b.com'' = l @ cu CHR ''@'' # d @ cu CHR ''.'' # t
        \<and> l \<noteq> [] \<and> d \<noteq> [] \<and> t \<noteq> []
        \<and> list_all notSpaceNorAt l \<and> list_all notSpaceNorAt d \<and> list_all notSpaceNorAt t)"
proof -
  have h: "isValidEmail (js ''a@b.com'')"
    by (simp add: isValidEmail_def emailRegex_def oneOrMore_def chr_def js_def cu_def
          isWhiteSpace_def)
  from isValidEmail_shape_exactly [of "js ''a@b.com''"] h show ?thesis by blast
qed

theorem isValidEmail_two_ats_counterexample:
  "emailShapeSpec (js ''a@b@c.com'') \<and> \<not> isValidEmail (js ''a@b@c.com'')"
  by (simp add: emailShapeSpec_def isValidEmail_def emailRegex_def oneOrMore_def chr_def
        js_def cu_def isWhiteSpace_def)

section \<open>Claims on the pricing functions\<close>

lemma calculateTotalsRounded_fields:
  "calculateTotalsRounded rnd xs =
     \<lparr>subtotal = calculateSubtotalRounded rnd xs,
      shippingCost = calculateShippingRounded rnd (calculateSubtotalRounded rnd xs),
      tax = calculateTaxRounded rnd (calculateSubtotalRounded rnd xs),
      total = rnd (rnd (calculateSubtotalRounded rnd xs
                        + calculateShippingRounded rnd (calculateSubtotalRounded rnd xs))
                   + calculateTaxRounded rnd (calculateSubtotalRounded rnd xs))\<rparr>"
  by (simp add: calculateTotalsRounded_def calculateSubtotalRounded_def
        calculateShippingRounded_def calculateTaxRounded_def Let_def)

text \<open>
  C6 (as amended). For every line list and every combination of shipping override, tax
  override and discount, the total of the order summary is
  \<open>((subtotal + shipping) + tax) - discount\<close> as the source computes it, the two sums and
  the difference each rounded to the nearest double; the shipping is the override if
  supplied and \<open>calculateShipping\<close> of the subtotal otherwise, the tax is the override if
  supplied and \<open>calculateTax\<close> of the subtotal otherwise, the discount is 0 when not
  supplied. Nothing clamps it at zero: a discount larger than the computed sum of the
  other terms gives a negative total.
\<close>

theorem order_summary_total_on_doubles:
  "total (orderSummaryTotals toDouble xs customShipping customTax discountProp) =
     toDouble
       (toDouble
          (toDouble
             (calculateSubtotalRounded toDouble xs
              + (case customShipping of Some v \<Rightarrow> v
                 | None \<Rightarrow> calculateShippingRounded toDouble (calculateSubtotalRounded toDouble xs)))
           + (case customTax of Some v \<Rightarrow> v
              | None \<Rightarrow> calculateTaxRounded toDouble (calculateSubtotalRounded toDouble xs)))
        - (case discountProp of Some d \<Rightarrow> d | None \<Rightarrow> 0))
   \<and> (toDouble
         (toDouble
            (calculateSubtotalRounded toDouble xs
             + (case customShipping of Some v \<Rightarrow> v
                | None \<Rightarrow> calculateShippingRounded toDouble (calculateSubtotalRounded toDouble xs)))
          + (case customTax of Some v \<Rightarrow> v
             | None \<Rightarrow> calculateTaxRounded toDouble (calculateSubtotalRounded toDouble xs)))
       < (case discountProp of Some d \<Rightarrow> d | None \<Rightarrow> 0)
      \<longrightarrow> total (orderSummaryTotals toDouble xs customShipping customTax discountProp) < 0)"
proof -
  define others where "others =
    toDouble
      (toDouble
         (calculateSubtotalRounded toDouble xs
          + (case customShipping of Some v \<Rightarrow> v
             | None \<Rightarrow> calculateShippingRounded toDouble (calculateSubtotalRounded toDouble xs)))
       + (case customTax of Some v \<Rightarrow> v
          | None \<Rightarrow> calculateTaxRounded toDouble (calculateSubtotalRounded toDouble xs)))"
  define disc where "disc = (case discountProp of Some d \<Rightarrow> d | None \<Rightarrow> (0::number))"
  have tot: "total (orderSummaryTotals toDouble xs customShipping customTax discountProp)
      = toDouble (others - disc)"
    unfolding others_def disc_def
    by (simp add: orderSummaryTotals_def calculateTotalsRounded_fields nullish_def Let_def
          split: option.splits)
  have neg: "others < disc \<longrightarrow> toDouble (others - disc) < 0"
  proof
    assume "others < disc"
    then have "others - disc < 0" by simp
    then show "toDouble (others - disc) < 0" by (rule toDouble_neg)
  qed
  from tot neg show ?thesis unfolding others_def disc_def by (simp only:)
qed

theorem order_summary_total_on_doubles_witness:
  "toDouble
     (toDouble
        (calculateSubtotalRounded toDouble
           [\<lparr>product = \<lparr>pid = js ''1'', name = js ''Product'', price = 10, image = None,
               description = None, sku = None, variant = None, metadata = None\<rparr>,
             quantity = 1, itemKey = js ''1''\<rparr>]
         + calculateShippingRounded toDouble
             (calculateSubtotalRounded toDouble
                [\<lparr>product = \<lparr>pid = js ''1'', name = js ''Product'', price = 10, image = None,
                    description = None, sku = None, variant = None, metadata = None\<rparr>,
                  quantity = 1, itemKey = js ''1''\<rparr>]))
      + 2) < 100
   \<and> total (orderSummaryTotals toDouble
        [\<lparr>product = \<lparr>pid = js ''1'', name = js ''Product'', price = 10, image = None,
            description = None, sku = None, variant = None, metadata = None\<rparr>,
          quantity = 1, itemKey = js ''1''\<rparr>] None (Some 2) (Some 100))
       = - (360683794375639 / 4398046511104)
   \<and> total (orderSummaryTotals toDouble
        [\<lparr>product = \<lparr>pid = js ''1'', name = js ''Product'', price = 10, image = None,
            description = None, sku = None, variant = None, metadata = None\<rparr>,
          quantity = 1, itemKey = js ''1''\<rparr>] None (Some 2) (Some 100)) < 0"
proof -
  let ?xs = "[\<lparr>product = \<lparr>pid = js ''1'', name = js ''Product'', price = 10, image = None,
            description = None, sku = None, variant = None, metadata = None\<rparr>,
          quantity = 1, itemKey = js ''1''\<rparr>]"
  have others: "toDouble
     (toDouble (calculateSubtotalRounded toDouble ?xs
                + calculateShippingRounded toDouble (calculateSubtotalRounded toDouble ?xs))
      + 2) = 2531867415512351 / 140737488355328"
    by code_simp
  have diff: "toDouble (2531867415512351 / 140737488355328 - 100)
      = - (360683794375639 / 4398046511104)"
    by code_simp
  have h: "toDouble
     (toDouble (calculateSubtotalRounded toDouble ?xs
                + calculateShippingRounded toDouble (calculateSubtotalRounded toDouble ?xs))
      + 2) < 100"
    unfolding others by simp
  note r = order_summary_total_on_doubles [of ?xs None "Some 2" "Some 100"]
  from r have "total (orderSummaryTotals toDouble ?xs None (Some 2) (Some 100))
      = toDouble (toDouble
          (toDouble (calculateSubtotalRounded toDouble ?xs
                     + calculateShippingRounded toDouble (calculateSubtotalRounded toDouble ?xs))
           + 2) - 100)"
    by simp
  then have v: "total (orderSummaryTotals toDouble ?xs None (Some 2) (Some 100))
      = - (360683794375639 / 4398046511104)"
    unfolding others diff .
  from r h have n: "total (orderSummaryTotals toDouble ?xs None (Some 2) (Some 100)) < 0"
    by simp
  from h v n show ?thesis by (intro conjI)
qed

theorem order_summary_zero_total_counterexample:
  "calculateSubtotalRounded toDouble
     [\<lparr>product = \<lparr>pid = js ''1'', name = js ''Product'', price = 1, image = None,
         description = None, sku = None, variant = None, metadata = None\<rparr>,
       quantity = 1, itemKey = js ''1''\<rparr>]
     + toDouble 0.1 + 0 < toDouble 1.1
   \<and> total (orderSummaryTotals toDouble
        [\<lparr>product = \<lparr>pid = js ''1'', name = js ''Product'', price = 1, image = None,
            description = None, sku = None, variant = None, metadata = None\<rparr>,
          quantity = 1, itemKey = js ''1''\<rparr>]
        (Some (toDouble 0.1)) (Some 0) (Some (toDouble 1.1))) = 0"
  by code_simp

text \<open>
  C7. \<open>calculateShipping\<close> is 0 for every subtotal of at least 50 (50 included) and the
  flat fee 5.99, which is positive, for every subtotal below 50; in particular it is
  positive at 49.99 and 0 at 50.00; and it is monotone non-increasing in the subtotal.
\<close>

theorem shipping_free_from_fifty:
  "(sub \<ge> 50 \<longrightarrow> calculateShipping sub = 0)
   \<and> (sub < 50 \<longrightarrow> calculateShipping sub = 5.99 \<and> calculateShipping sub > 0)
   \<and> calculateShipping 49.99 > 0
   \<and> calculateShipping 50.00 = 0
   \<and> (a \<le> b \<longrightarrow> calculateShipping b \<le> calculateShipping a)"
  by (simp add: calculateShipping_def)

theorem shipping_free_from_fifty_witness:
  "(50::number) \<le> 75 \<and> calculateShipping 75 = 0
   \<and> (20::number) < 50 \<and> calculateShipping 20 = 5.99 \<and> calculateShipping 20 > 0
   \<and> (20::number) \<le> 75 \<and> calculateShipping 75 \<le> calculateShipping 20"
proof -
  have h1: "(50::number) \<le> 75" and h2: "(20::number) < 50" and h3: "(20::number) \<le> 75"
    by simp_all
  from shipping_free_from_fifty [of 75 20 75] shipping_free_from_fifty [of 20 20 75] h1 h2 h3
  show ?thesis by simp
qed

lemma calculateTotalsRounded_exact: "calculateTotalsRounded (\<lambda>x. x) xs = calculateTotals xs"
  by (simp add: calculateTotalsRounded_def calculateTotals_def calculateSubtotal_def
        calculateShipping_def calculateTax_def)

text \<open>The totals of one line of three items priced 29.99, computed on doubles: every
  result is the double nearest to the decimal of the exact computation.\<close>

lemma scenario_totals_on_doubles:
  "calculateTotalsRounded toDouble
     [\<lparr>product = \<lparr>pid = js ''1'', name = js ''Product'', price = toDouble 29.99, image = None,
         description = None, sku = None, variant = None, metadata = None\<rparr>,
       quantity = 3, itemKey = js ''1''\<rparr>]
   = \<lparr>subtotal = toDouble 89.97, shippingCost = 0, tax = toDouble 7.1976,
      total = toDouble 97.1676\<rparr>"
  by code_simp

text \<open>
  C8. From a cart holding one line of a product priced 29.99 with quantity 1, \<open>addItem\<close> of
  the same product with quantity 2 gives exactly one line, with quantity 3; on the result
  \<open>calculateTotals\<close> returns the subtotal 89.97, the shipping cost 0, the tax 7.1976 (8% of
  89.97) and the total 97.1676, which is 97.17 to the cent. (In exact arithmetic; on
  doubles the results are the doubles nearest to these decimals, by the lemma above.)
\<close>

theorem scenario_add_then_totals:
  assumes "price p = 29.99"
      and "items s = [\<lparr>product = p, quantity = 1, itemKey = generateItemKey p\<rparr>]"
  shows "items (cartReducer s (addItem p (Some 2)))
           = [\<lparr>product = p, quantity = 3, itemKey = generateItemKey p\<rparr>]
       \<and> calculateTotals (items (cartReducer s (addItem p (Some 2))))
           = \<lparr>subtotal = 89.97, shippingCost = 0, tax = 7.1976, total = 97.1676\<rparr>
       \<and> \<bar>total (calculateTotals (items (cartReducer s (addItem p (Some 2))))) - 97.17\<bar> < 0.005"
proof -
  have "items s = [] @ [\<lparr>product = p, quantity = 1, itemKey = generateItemKey p\<rparr>]"
    using assms(2) by simp
  then have "cartReducer s (ADD_ITEM p 2)
      = s\<lparr>items := [] @ [\<lparr>product = p, quantity = 1 + 2, itemKey = generateItemKey p\<rparr>]\<rparr>"
    by (intro add_item_last) simp_all
  then have line: "items (cartReducer s (addItem p (Some 2)))
      = [\<lparr>product = p, quantity = 3, itemKey = generateItemKey p\<rparr>]"
    by (simp add: addItem_def del: cartReducer.simps(1))
  have tot: "calculateTotals [\<lparr>product = p, quantity = 3, itemKey = generateItemKey p\<rparr>]
      = \<lparr>subtotal = 89.97, shippingCost = 0, tax = 7.1976, total = 97.1676\<rparr>"
    by (simp add: calculateTotals_def calculateSubtotal_def calculateShipping_def
          calculateTax_def assms(1))
  show ?thesis unfolding line tot by simp
qed

theorem scenario_add_then_totals_witness:
  "price \<lparr>pid = js ''1'', name = js ''Product'', price = 29.99, image = None,
          description = None, sku = None, variant = None, metadata = None\<rparr> = 29.99
   \<and> calculateTotals (items (cartReducer
        \<lparr>items = [\<lparr>product = \<lparr>pid = js ''1'', name = js ''Product'', price = 29.99, image = None,
            description = None, sku = None, variant = None, metadata = None\<rparr>,
            quantity = 1, itemKey = js ''1''\<rparr>], isOpen = False, isLoading = False\<rparr>
        (addItem \<lparr>pid = js ''1'', name = js ''Product'', price = 29.99, image = None,
            description = None, sku = None, variant = None, metadata = None\<rparr> (Some 2))))
       = \<lparr>subtotal = 89.97, shippingCost = 0, tax = 7.1976, total = 97.1676\<rparr>
   \<and> map quantity (items (cartReducer
        \<lparr>items = [\<lparr>product = \<lparr>pid = js ''1'', name = js ''Product'', price = 29.99, image = None,
            description = None, sku = None, variant = None, metadata = None\<rparr>,
            quantity = 1, itemKey = js ''1''\<rparr>], isOpen = False, isLoading = False\<rparr>
        (addItem \<lparr>pid = js ''1'', name = js ''Product'', price = 29.99, image = None,
            description = None, sku = None, variant = None, metadata = None\<rparr> (Some 2)))) = [3]"
proof -
  let ?p = "\<lparr>pid = js ''1'', name = js ''Product'', price = 29.99, image = None,
            description = None, sku = None, variant = None, metadata = None\<rparr>"
  let ?s = "\<lparr>items = [\<lparr>product = ?p, quantity = 1, itemKey = js ''1''\<rparr>],
             isOpen = False, isLoading = False\<rparr>"
  have h1: "price ?p = 29.99" by simp
  have h2: "items ?s = [\<lparr>product = ?p, quantity = 1, itemKey = generateItemKey ?p\<rparr>]"
    by (simp add: generateItemKey_def)
  note r = scenario_add_then_totals [OF h1 h2]
  from r have w2: "calculateTotals (items (cartReducer ?s (addItem ?p (Some 2))))
      = \<lparr>subtotal = 89.97, shippingCost = 0, tax = 7.1976, total = 97.1676\<rparr>"
    by (rule conjunct2 [THEN conjunct1])
  from r have "items (cartReducer ?s (addItem ?p (Some 2)))
      = [\<lparr>product = ?p, quantity = 3, itemKey = generateItemKey ?p\<rparr>]"
    by (rule conjunct1)
  then have w3: "map quantity (items (cartReducer ?s (addItem ?p (Some 2)))) = [3]"
    by (simp only: list.map cartItem.simps)
  from h1 w2 w3 show ?thesis by (intro conjI)
qed

section \<open>Claims on the checkout form\<close>

lemma exactly_numeral: "exactly (numeral n) r = Cat r (exactly (pred_numeral n) r)"
  by (simp add: numeral_eq_Suc)

lemma handleSubmit_invalid:
  "newErrors props w \<noteq> [] \<Longrightarrow>
   handleSubmit newURL props w = w\<lparr>errors := newErrors props w\<rparr>"
  by (simp add: handleSubmit_def validateForm_def Let_def)

lemma handleSubmit_empty_cart:
  "newErrors props w = [] \<Longrightarrow> items (cart w) = [] \<Longrightarrow>
   handleSubmit newURL props w = w\<lparr>errors := [(js ''form'', js ''Your cart is empty'')]\<rparr>"
  by (simp add: handleSubmit_def validateForm_def Let_def)

lemma formData_ignores:
  "formData props (w\<lparr>errors := e\<rparr>) = formData props w"
  "formData props (w\<lparr>isSubmitting := b\<rparr>) = formData props w"
  by (simp_all add: formData_def finalBilling_def Let_def)

lemma handleSubmit_rejected:
  assumes "newErrors props w = []" and "items (cart w) \<noteq> []"
      and "onCreateOrder props (formData props w) (items (cart w)) (calculateTotals (items (cart w)))
             = Inl err"
  shows "handleSubmit newURL props w =
           catchBlock props err
             (w\<lparr>isSubmitting := True, errors := [],
                calls := calls w @ [CreateOrder (formData props w) (items (cart w))
                                      (calculateTotals (items (cart w)))]\<rparr>)"
  using assms
  by (simp add: handleSubmit_def validateForm_def tryBlock_def Let_def formData_ignores)

lemma catchBlock_effect:
  "cart (catchBlock props err w) = cart w"
  "errors (catchBlock props err w) = [(js ''form'', errorMessage err)]"
  "calls (catchBlock props err w) =
     calls w @ (case onError props of None \<Rightarrow> [] | Some f \<Rightarrow> [OnError (errorMessage err)])"
  by (simp_all add: catchBlock_def Let_def split: option.splits)

lemma setIf_keeps_out:
  "key \<notin> fst ` set e \<Longrightarrow> js k \<noteq> key \<Longrightarrow> key \<notin> fst ` set (setIf b k m e)"
  by (simp add: setIf_def dom_update)

lemma if_keeps_out:
  "key \<notin> fst ` set a \<Longrightarrow> key \<notin> fst ` set b \<Longrightarrow> key \<notin> fst ` set (if c then a else b)"
  by simp

lemma newErrors_no_form_key: "js ''form'' \<notin> fst ` set (newErrors props w)"
  unfolding newErrors_def Let_def
  by (intro setIf_keeps_out if_keeps_out) (simp_all add: js_def cu_def)

lemmas checkout_eval = handleSubmit_def validateForm_def newErrors_def setIf_def tryBlock_def
  catchBlock_def formData_def finalBilling_def errorMessage_def redirectToPayment_def
  truthy_def trim_def isValidEmail_def emailRegex_def oneOrMore_def chr_def
  isValidPostalCode_def usPostalRegex_def optional_def exactly_numeral
  isValidPhone_def phoneRegex_def orMore_def isDigit_def isWhiteSpace_def
  js_def cu_def Let_def initialAddress_def initialBilling_def initialState_def

text \<open>
  C4. If the order-creation collaborator is called during a submission (the fields pass
  validation and the cart is not empty) and rejects, then afterwards the cart is exactly
  what it was before the submission, \<open>clearCart\<close> has not been invoked (the calls made are
  the order creation and, when supplied, \<open>onError\<close>), and the error state has exactly one
  entry, the form-level message.
\<close>

theorem rejected_order_keeps_cart:
  assumes "snd (validateForm props w)"
      and "items (cart w) \<noteq> []"
      and "onCreateOrder props (formData props w) (items (cart w)) (calculateTotals (items (cart w)))
             = Inl err"
  shows "cart (handleSubmit newURL props w) = cart w
       \<and> errors (handleSubmit newURL props w) = [(js ''form'', errorMessage err)]
       \<and> calls (handleSubmit newURL props w) =
           calls w @ CreateOrder (formData props w) (items (cart w)) (calculateTotals (items (cart w)))
                   # (case onError props of None \<Rightarrow> [] | Some f \<Rightarrow> [OnError (errorMessage err)])"
proof -
  from assms(1) have "newErrors props w = []"
    by (simp add: validateForm_def Let_def)
  then have "handleSubmit newURL props w =
      catchBlock props err
        (w\<lparr>isSubmitting := True, errors := [],
           calls := calls w @ [CreateOrder (formData props w) (items (cart w))
                                 (calculateTotals (items (cart w)))]\<rparr>)"
    using assms(2,3) by (rule handleSubmit_rejected)
  then show ?thesis by (simp add: catchBlock_effect)
qed

theorem rejected_order_keeps_cart_witness:
  "let props = \<lparr>onCreateOrder = (\<lambda>fd xs t. Inl (ErrorObject (js ''Payment service unavailable''))),
                 onOrderCreated = None, onError = None,
                 showBillingAddress = True, showNotes = True\<rparr>;
       w = \<lparr>shippingState = \<lparr>firstName = js ''Ada'', lastName = js ''Lovelace'',
               email = js ''a@b.com'', phone = Some [], address1 = js ''1 Main St'',
               address2 = Some [], city = js ''Springfield'', state_addr = js ''IL'',
               postalCode = js ''12345'', country = js ''US''\<rparr>,
             billingState = initialBilling, notesState = [], isSubmitting = False, errors = [],
             cart = \<lparr>items = [\<lparr>product = \<lparr>pid = js ''1'', name = js ''Product'', price = 29.99,
                        image = None, description = None, sku = None, variant = None,
                        metadata = None\<rparr>, quantity = 1, itemKey = js ''1''\<rparr>],
                     isOpen = False, isLoading = False\<rparr>,
             calls = []\<rparr>
   in snd (validateForm props w)
      \<and> items (cart w) \<noteq> []
      \<and> onCreateOrder props (formData props w) (items (cart w)) (calculateTotals (items (cart w)))
          = Inl (ErrorObject (js ''Payment service unavailable''))
      \<and> cart (handleSubmit (\<lambda>u. None) props w) = cart w
      \<and> errors (handleSubmit (\<lambda>u. None) props w) = [(js ''form'', js ''Payment service unavailable'')]
      \<and> length (calls (handleSubmit (\<lambda>u. None) props w)) = 1"
proof -
  let ?props = "\<lparr>onCreateOrder = (\<lambda>fd xs t. Inl (ErrorObject (js ''Payment service unavailable''))),
                 onOrderCreated = None, onError = None,
                 showBillingAddress = True, showNotes = True\<rparr>"
  let ?w = "\<lparr>shippingState = \<lparr>firstName = js ''Ada'', lastName = js ''Lovelace'',
               email = js ''a@b.com'', phone = Some [], address1 = js ''1 Main St'',
               address2 = Some [], city = js ''Springfield'', state_addr = js ''IL'',
               postalCode = js ''12345'', country = js ''US''\<rparr>,
             billingState = initialBilling, notesState = [], isSubmitting = False, errors = [],
             cart = \<lparr>items = [\<lparr>product = \<lparr>pid = js ''1'', name = js ''Product'', price = 29.99,
                        image = None, description = None, sku = None, variant = None,
                        metadata = None\<rparr>, quantity = 1, itemKey = js ''1''\<rparr>],
                     isOpen = False, isLoading = False\<rparr>,
             calls = []\<rparr>"
  have h1: "snd (validateForm ?props ?w)"
    by (simp add: checkout_eval)
  have h2: "items (cart ?w) \<noteq> []" by simp
  have h3: "onCreateOrder ?props (formData ?props ?w) (items (cart ?w))
      (calculateTotals (items (cart ?w))) = Inl (ErrorObject (js ''Payment service unavailable''))"
    by simp
  note r = rejected_order_keeps_cart [OF h1 h2 h3, of "\<lambda>u. None"]
  from r have c1: "cart (handleSubmit (\<lambda>u. None) ?props ?w) = cart ?w"
    by (rule conjunct1)
  from r have c2: "errors (handleSubmit (\<lambda>u. None) ?props ?w)
      = [(js ''form'', js ''Payment service unavailable'')]"
    by (simp add: errorMessage_def)
  from r have c3: "length (calls (handleSubmit (\<lambda>u. None) ?props ?w)) = 1"
    by simp
  from h1 h2 h3 c1 c2 c3 show ?thesis
    unfolding Let_def by (intro conjI)
qed

text \<open>
  C5 (as amended). When the form is submitted with an empty cart, the order-creation
  collaborator is never called (no call is made at all) and the cart stays as it was; if
  the fields pass validation the error state is the single form-level error \<open>Your cart
  is empty\<close>, and otherwise it is the non-empty set of field-level validation errors,
  without a form-level entry. More generally, whenever a validation error exists or the
  cart is empty, no call is made and the cart is unchanged; and the submit button is
  disabled while the cart is empty.
\<close>

theorem empty_cart_or_invalid_blocks_submission:
  "(items (cart w) = [] \<and> snd (validateForm props w) \<longrightarrow>
      errors (handleSubmit newURL props w) = [(js ''form'', js ''Your cart is empty'')])
   \<and> (\<not> snd (validateForm props w) \<longrightarrow>
      errors (handleSubmit newURL props w) = newErrors props w
      \<and> newErrors props w \<noteq> []
      \<and> js ''form'' \<notin> fst ` set (errors (handleSubmit newURL props w)))
   \<and> (\<not> snd (validateForm props w) \<or> items (cart w) = [] \<longrightarrow>
      calls (handleSubmit newURL props w) = calls w
      \<and> cart (handleSubmit newURL props w) = cart w)
   \<and> (items (cart w) = [] \<longrightarrow> submitDisabled w)"
proof -
  have v: "snd (validateForm props w) \<longleftrightarrow> newErrors props w = []"
    by (simp add: validateForm_def Let_def)
  show ?thesis
  proof (cases "newErrors props w = []")
    case True
    show ?thesis
    proof (cases "items (cart w) = []")
      case empty: True
      from handleSubmit_empty_cart [OF True empty, of newURL] True empty
      show ?thesis by (simp add: v submitDisabled_def)
    next
      case False
      with True show ?thesis by (simp add: v)
    qed
  next
    case False
    from handleSubmit_invalid [OF False, of newURL] False newErrors_no_form_key [of props w]
    show ?thesis by (simp add: v submitDisabled_def)
  qed
qed

theorem empty_cart_or_invalid_blocks_submission_witness:
  "let props = \<lparr>onCreateOrder = (\<lambda>fd xs t. Inl OtherValue),
                 onOrderCreated = None, onError = None,
                 showBillingAddress = True, showNotes = True\<rparr>;
       valid = \<lparr>shippingState = \<lparr>firstName = js ''Ada'', lastName = js ''Lovelace'',
               email = js ''a@b.com'', phone = Some [], address1 = js ''1 Main St'',
               address2 = Some [], city = js ''Springfield'', state_addr = js ''IL'',
               postalCode = js ''12345'', country = js ''US''\<rparr>,
             billingState = initialBilling, notesState = [], isSubmitting = False, errors = [],
             cart = initialState, calls = []\<rparr>;
       invalid = \<lparr>shippingState = initialAddress,
             billingState = initialBilling, notesState = [], isSubmitting = False, errors = [],
             cart = \<lparr>items = [\<lparr>product = \<lparr>pid = js ''1'', name = js ''Product'', price = 29.99,
                        image = None, description = None, sku = None, variant = None,
                        metadata = None\<rparr>, quantity = 1, itemKey = js ''1''\<rparr>],
                     isOpen = False, isLoading = False\<rparr>,
             calls = []\<rparr>
   in items (cart valid) = [] \<and> snd (validateForm props valid)
      \<and> errors (handleSubmit (\<lambda>u. None) props valid) = [(js ''form'', js ''Your cart is empty'')]
      \<and> calls (handleSubmit (\<lambda>u. None) props valid) = []
      \<and> submitDisabled valid
      \<and> \<not> snd (validateForm props invalid)
      \<and> errors (handleSubmit (\<lambda>u. None) props invalid) = newErrors props invalid
      \<and> calls (handleSubmit (\<lambda>u. None) props invalid) = []
      \<and> cart (handleSubmit (\<lambda>u. None) props invalid) = cart invalid"
proof -
  let ?props = "\<lparr>onCreateOrder = (\<lambda>fd xs t. Inl OtherValue),
                 onOrderCreated = None, onError = None,
                 showBillingAddress = True, showNotes = True\<rparr>"
  let ?valid = "\<lparr>shippingState = \<lparr>firstName = js ''Ada'', lastName = js ''Lovelace'',
               email = js ''a@b.com'', phone = Some [], address1 = js ''1 Main St'',
               address2 = Some [], city = js ''Springfield'', state_addr = js ''IL'',
               postalCode = js ''12345'', country = js ''US''\<rparr>,
             billingState = initialBilling, notesState = [], isSubmitting = False, errors = [],
             cart = initialState, calls = []\<rparr>"
  let ?invalid = "\<lparr>shippingState = initialAddress,
             billingState = initialBilling, notesState = [], isSubmitting = False, errors = [],
             cart = \<lparr>items = [\<lparr>product = \<lparr>pid = js ''1'', name = js ''Product'', price = 29.99,
                        image = None, description = None, sku = None, variant = None,
                        metadata = None\<rparr>, quantity = 1, itemKey = js ''1''\<rparr>],
                     isOpen = False, isLoading = False\<rparr>,
             calls = []\<rparr>"
  have e: "items (cart ?valid) = []" by (simp add: initialState_def)
  have v: "snd (validateForm ?props ?valid)" by (simp add: checkout_eval)
  have i: "\<not> snd (validateForm ?props ?invalid)" by (simp add: checkout_eval)
  note rv = empty_cart_or_invalid_blocks_submission [of ?valid ?props "\<lambda>u. None"]
  note ri = empty_cart_or_invalid_blocks_submission [of ?invalid ?props "\<lambda>u. None"]
  from rv e v have v1: "errors (handleSubmit (\<lambda>u. None) ?props ?valid)
      = [(js ''form'', js ''Your cart is empty'')]" by blast
  from rv e have v2: "calls (handleSubmit (\<lambda>u. None) ?props ?valid) = calls ?valid" by blast
  from rv e have v3: "submitDisabled ?valid" by blast
  from ri i have i1: "errors (handleSubmit (\<lambda>u. None) ?props ?invalid) = newErrors ?props ?invalid"
    by blast
  from ri i have i2: "calls (handleSubmit (\<lambda>u. None) ?props ?invalid) = calls ?invalid" by blast
  from ri i have i3: "cart (handleSubmit (\<lambda>u. None) ?props ?invalid) = cart ?invalid" by blast
  from v2 have v2': "calls (handleSubmit (\<lambda>u. None) ?props ?valid) = []" by simp
  from i2 have i2': "calls (handleSubmit (\<lambda>u. None) ?props ?invalid) = []" by simp
  from e v v1 v2' v3 i i1 i2' i3 show ?thesis
    unfolding Let_def by (intro conjI)
qed

theorem empty_cart_invalid_form_counterexample:
  "let props = \<lparr>onCreateOrder = (\<lambda>fd xs t. Inl OtherValue),
                 onOrderCreated = None, onError = None,
                 showBillingAddress = True, showNotes = True\<rparr>;
       w = \<lparr>shippingState = initialAddress, billingState = initialBilling, notesState = [],
             isSubmitting = False, errors = [], cart = initialState, calls = []\<rparr>
   in items (cart w) = []
      \<and> map fst (errors (handleSubmit (\<lambda>u. None) props w))
          = [js ''shipping.firstName'', js ''shipping.lastName'', js ''shipping.email'',
             js ''shipping.address1'', js ''shipping.city'', js ''shipping.state'',
             js ''shipping.postalCode'']"
  by (simp add: checkout_eval)


end
